theory Spec2Isabelle
  imports Main
begin

section \<open>Host, effects and exceptions\<close>

text \<open>
  The extension script \<^verbatim>\<open>omsagent_ff.py\<close> is Python 2: a \<^verbatim>\<open>str\<close> is a byte string,
  modelled as \<^typ>\<open>string\<close> (a list of 8-bit characters). Everything the script does to
  the machine is recorded in a trace of events, in the order it happens.
\<close>

datatype event =
    Executed string
  | Slept int
  | LogInfo string
  | LogError string
  | WaLogInfo string
  | WaLogError string

datatype exn =
    OMSAgentParameterMissingError string
  | OMSAgentInvalidParameterError string
  | OMSAgentUnwantedMultipleConnectionsException string
  | OMSAgentCannotConnectToOMSException
  | UnicodeDecodeError
  | UnboundLocalError
  | IOError
  | SystemExit int

text \<open>
  The collaborators of the script: the command execution facility
  (\<^verbatim>\<open>subprocess.check_output\<close> with the \<^verbatim>\<open>CalledProcessError\<close> branch, or
  \<^verbatim>\<open>waagent.RunGetOutput\<close>; both give an exit code and the raw output), and the file
  system calls \<^verbatim>\<open>os.path.exists\<close>, \<^verbatim>\<open>os.walk\<close> and \<^verbatim>\<open>open(...).read()\<close>. They act
  on a host state of any type \<open>'w\<close>.
\<close>

record 'w facility =
  check_output :: "string \<Rightarrow> 'w \<Rightarrow> (int \<times> string) \<times> 'w"
  path_exists :: "string \<Rightarrow> 'w \<Rightarrow> bool"
  os_walk :: "string \<Rightarrow> 'w \<Rightarrow> (string \<times> string list \<times> string list) list"
  read_file :: "string \<Rightarrow> 'w \<Rightarrow> string option"

record 'w state =
  host :: 'w
  trace :: "event list"

type_synonym ('w, 'a) action = "'w state \<Rightarrow> (exn + 'a) \<times> 'w state"

type_synonym 'w retry_check = "int \<Rightarrow> string \<Rightarrow> ('w, bool \<times> string) action"

type_synonym final_check = "int \<Rightarrow> string \<Rightarrow> exn + int"

definition emit :: "event \<Rightarrow> 'w state \<Rightarrow> 'w state" where
  "emit e s = s\<lparr>trace := trace s @ [e]\<rparr>"

definition hutil_log_info :: "string \<Rightarrow> 'w state \<Rightarrow> 'w state" where
  "hutil_log_info message s = emit (LogInfo message) s"

definition hutil_log_error :: "string \<Rightarrow> 'w state \<Rightarrow> 'w state" where
  "hutil_log_error message s = emit (LogError message) s"

definition waagent_log_info :: "string \<Rightarrow> 'w state \<Rightarrow> 'w state" where
  "waagent_log_info message s = emit (WaLogInfo message) s"

definition waagent_log_error :: "string \<Rightarrow> 'w state \<Rightarrow> 'w state" where
  "waagent_log_error message s = emit (WaLogError message) s"

definition time_sleep :: "int \<Rightarrow> 'w state \<Rightarrow> 'w state" where
  "time_sleep t s = emit (Slept t) s"

text \<open>
  \<^verbatim>\<open>log_and_exit\<close> logs the message on both loggers and leaves the process with the
  exit code (\<^verbatim>\<open>sys.exit\<close>, or \<^verbatim>\<open>HUtilObject.do_exit\<close>); the status file it writes on
  the way is not part of the model.
\<close>

definition log_and_exit :: "string \<Rightarrow> int \<Rightarrow> string \<Rightarrow> ('w, 'a) action" where
  "log_and_exit operation exit_code message s =
     (if exit_code = 0
      then (Inl (SystemExit exit_code), hutil_log_info message (waagent_log_info message s))
      else (Inl (SystemExit exit_code), hutil_log_error message (waagent_log_error message s)))"

section \<open>Byte strings\<close>

definition newline :: char where
  "newline = CHR 0x0A"

definition dquote :: char where
  "dquote = CHR 0x22"

text \<open>The characters \<^verbatim>\<open>str.strip()\<close> removes and \<^verbatim>\<open>\s\<close> matches: space, TAB, LF, VT, FF, CR.\<close>

definition is_space :: "char \<Rightarrow> bool" where
  "is_space c = (c = CHR '' '' \<or> c = CHR 0x09 \<or> c = CHR 0x0A \<or> c = CHR 0x0B
                 \<or> c = CHR 0x0C \<or> c = CHR 0x0D)"

definition py_strip :: "string \<Rightarrow> string" where
  "py_strip s = rev (dropWhile is_space (rev (dropWhile is_space s)))"

definition lower_char :: "char \<Rightarrow> char" where
  "lower_char c =
     (if (65::nat) \<le> of_char c \<and> of_char c \<le> (90::nat)
      then char_of (of_char c + (32::nat)) else c)"

definition py_lower :: "string \<Rightarrow> string" where
  "py_lower s = map lower_char s"

text \<open>\<^verbatim>\<open>s.split(sep)\<close> for a one-character separator: empty pieces are kept.\<close>

fun py_split :: "char \<Rightarrow> string \<Rightarrow> string list" where
  "py_split sep [] = [[]]"
| "py_split sep (c # cs) =
     (if c = sep then [] # py_split sep cs
      else (case py_split sep cs of
              [] \<Rightarrow> [[c]]
            | p # ps \<Rightarrow> (c # p) # ps))"

definition starts_with :: "string \<Rightarrow> string \<Rightarrow> bool" where
  "starts_with s p = (take (length p) s = p)"

text \<open>\<^verbatim>\<open>x in s\<close> on strings: \<open>x\<close> occurs in \<open>s\<close> as a contiguous piece.\<close>

fun py_in :: "string \<Rightarrow> string \<Rightarrow> bool" where
  "py_in x [] = (x = [])"
| "py_in x (c # cs) = (starts_with (c # cs) x \<or> py_in x cs)"

text \<open>\<^verbatim>\<open>s.replace(a, b)\<close> for one-character \<open>a\<close> and \<open>b\<close>.\<close>

definition py_replace :: "char \<Rightarrow> char \<Rightarrow> string \<Rightarrow> string" where
  "py_replace a b s = map (\<lambda>c. if c = a then b else c) s"

text \<open>
  \<^verbatim>\<open>output.encode('utf-8')\<close> on a Python 2 byte string first decodes it with the
  ASCII codec: a byte above 127 raises \<^verbatim>\<open>UnicodeDecodeError\<close>, and an ASCII string is
  returned as it is.
\<close>

definition is_ascii :: "string \<Rightarrow> bool" where
  "is_ascii s = list_all (\<lambda>c. of_char c < (128::nat)) s"

definition encode_utf8 :: "string \<Rightarrow> exn + string" where
  "encode_utf8 output = (if is_ascii output then Inr output else Inl UnicodeDecodeError)"

section \<open>Running commands\<close>

text \<open>
  \<^verbatim>\<open>run_get_output\<close>: both branches take the exit code and the output from the
  facility (\<open>chk_err\<close> and \<open>log_cmd\<close> only reach \<^verbatim>\<open>waagent.RunGetOutput\<close>); the result
  is \<^verbatim>\<open>exit_code, output.encode('utf-8').strip()\<close>.
\<close>

definition run_get_output ::
  "'w facility \<Rightarrow> string \<Rightarrow> bool \<Rightarrow> bool \<Rightarrow> ('w, int \<times> string) action" where
  "run_get_output F cmd chk_err log_cmd s =
     (case check_output F cmd (host s) of
        ((exit_code, output), h) \<Rightarrow>
          (case encode_utf8 output of
             Inl e \<Rightarrow> (Inl e, emit (Executed cmd) (s\<lparr>host := h\<rparr>))
           | Inr encoded \<Rightarrow>
               (Inr (exit_code, py_strip encoded), emit (Executed cmd) (s\<lparr>host := h\<rparr>))))"

definition run_command_and_log ::
  "'w facility \<Rightarrow> string \<Rightarrow> bool \<Rightarrow> bool \<Rightarrow> ('w, int \<times> string) action" where
  "run_command_and_log F cmd check_error log_cmd s =
     (case run_get_output F cmd check_error log_cmd s of
        (Inl e, s1) \<Rightarrow> (Inl e, s1)
      | (Inr (exit_code, output), s1) \<Rightarrow>
          (if log_cmd
           then (Inr (exit_code, output),
                 hutil_log_info (''Output of command '' @ [dquote] @ cmd @ [dquote]
                                 @ '': '' @ [newline] @ output) s1)
           else (Inr (exit_code, output),
                 hutil_log_info (''Output: '' @ [newline] @ output) s1)))"

section \<open>The retry engine\<close>

text \<open>
  The \<^verbatim>\<open>while try_count <= retries\<close> loop of \<^verbatim>\<open>run_command_with_retries\<close>. Its result
  is the \<^verbatim>\<open>exit_code, output\<close> of the last attempt, or \<open>None\<close> when the body never
  ran and the two variables are unbound.
\<close>

function retry_loop ::
  "'w facility \<Rightarrow> string \<Rightarrow> int \<Rightarrow> 'w retry_check \<Rightarrow> bool \<Rightarrow> bool \<Rightarrow> int \<Rightarrow>
   int \<Rightarrow> int \<Rightarrow> (int \<times> string) option \<Rightarrow> ('w, (int \<times> string) option) action" where
  "retry_loop F cmd retries retry_check check_error log_cmd sleep_increase_factor
              try_count sleep_time prev s =
     (if try_count \<le> retries then
        (case run_command_and_log F cmd check_error log_cmd s of
           (Inl e, s1) \<Rightarrow> (Inl e, s1)
         | (Inr (exit_code, output), s1) \<Rightarrow>
             (case retry_check exit_code output s1 of
                (Inl e, s2) \<Rightarrow> (Inl e, s2)
              | (Inr (should_retry, retry_message), s2) \<Rightarrow>
                  if \<not> should_retry then (Inr (Some (exit_code, output)), s2)
                  else retry_loop F cmd retries retry_check check_error log_cmd
                         sleep_increase_factor (try_count + 1)
                         (sleep_time * sleep_increase_factor) (Some (exit_code, output))
                         (time_sleep sleep_time (hutil_log_info retry_message s2))))
      else (Inr prev, s))"
  by pat_completeness auto
termination
  by (relation "measure (\<lambda>(F, cmd, retries, rc, ce, lc, f, try_count, st, prev, s).
                   nat (retries + 1 - try_count))") auto

declare retry_loop.simps [simp del]

definition run_command_with_retries ::
  "'w facility \<Rightarrow> string \<Rightarrow> int \<Rightarrow> 'w retry_check \<Rightarrow> final_check option \<Rightarrow> bool \<Rightarrow> bool \<Rightarrow>
   int \<Rightarrow> int \<Rightarrow> ('w, int) action" where
  "run_command_with_retries F cmd retries retry_check final_check check_error log_cmd
                            initial_sleep_time sleep_increase_factor s =
     (case retry_loop F cmd retries retry_check check_error log_cmd sleep_increase_factor
             0 initial_sleep_time None s of
        (Inl e, s1) \<Rightarrow> (Inl e, s1)
      | (Inr None, s1) \<Rightarrow> (Inl UnboundLocalError, s1)
      | (Inr (Some (exit_code, output)), s1) \<Rightarrow>
          (case final_check of
             None \<Rightarrow> (Inr exit_code, s1)
           | Some fc \<Rightarrow> (fc exit_code output, s1)))"

text \<open>How often a command was run, and how often the script slept, in a trace.\<close>

definition executions :: "string \<Rightarrow> event list \<Rightarrow> nat" where
  "executions cmd tr = length (filter (\<lambda>e. e = Executed cmd) tr)"

fun is_sleep :: "event \<Rightarrow> bool" where
  "is_sleep (Slept t) = True"
| "is_sleep e = False"

definition sleeps :: "event list \<Rightarrow> nat" where
  "sleeps tr = length (filter is_sleep tr)"

section \<open>Retry and final checks\<close>

definition DPKGLockedErrorCode :: int where
  "DPKGLockedErrorCode = 12"

definition InstallErrorCurlNotInstalled :: int where
  "InstallErrorCurlNotInstalled = 64"


definition EnableErrorOMSReturned403 :: int where
  "EnableErrorOMSReturned403 = 5"

definition EnableErrorOMSReturnedNon200 :: int where
  "EnableErrorOMSReturnedNon200 = 6"

definition EnableErrorResolvingHost :: int where
  "EnableErrorResolvingHost = 7"

definition UnsupportedOpenSSL :: int where
  "UnsupportedOpenSSL = 60"

text \<open>
  The rest of \<open>s\<close> after the first occurrence of \<open>p\<close>, if there is one.
\<close>

fun after_first :: "string \<Rightarrow> string \<Rightarrow> string option" where
  "after_first p [] = (if p = [] then Some [] else None)"
| "after_first p (c # cs) =
     (if starts_with (c # cs) p then Some (drop (length p) (c # cs)) else after_first p cs)"

text \<open>
  The pattern \<^verbatim>\<open>^.*dpkg.+lock.*$\<close>, compiled with \<^verbatim>\<open>re.M\<close> and used with \<^verbatim>\<open>search\<close>:
  \<^verbatim>\<open>.\<close> matches every character but the line feed, so the pattern is found when one
  line holds \<^verbatim>\<open>dpkg\<close>, then at least one character, then \<^verbatim>\<open>lock\<close>. If any
  occurrence of \<^verbatim>\<open>dpkg\<close> is followed that way, the first one is.
\<close>

definition dpkg_lock_line :: "string \<Rightarrow> bool" where
  "dpkg_lock_line l =
     (case after_first ''dpkg'' l of
        None \<Rightarrow> False
      | Some r \<Rightarrow> py_in ''lock'' (tl r))"

definition dpkg_locked_search :: "string \<Rightarrow> bool" where
  "dpkg_locked_search output = list_ex dpkg_lock_line (py_split newline output)"

definition is_dpkg_locked :: "int \<Rightarrow> string \<Rightarrow> bool" where
  "is_dpkg_locked exit_code output =
     (if exit_code \<noteq> 0 then (if dpkg_locked_search output then True else False) else False)"

definition is_curl_found :: "int \<Rightarrow> string \<Rightarrow> bool" where
  "is_curl_found exit_code output =
     (if exit_code = InstallErrorCurlNotInstalled then False else True)"

definition retry_if_dpkg_locked_or_curl_is_not_found :: "'w facility \<Rightarrow> 'w retry_check" where
  "retry_if_dpkg_locked_or_curl_is_not_found F exit_code output s =
     (let dpkg_locked = is_dpkg_locked exit_code output;
          curl_found = is_curl_found exit_code output
      in case run_get_output F ''which apt-get'' False False s of
           (Inl e, s1) \<Rightarrow> (Inl e, s1)
         | (Inr (apt_get_exit_code, apt_get_output), s1) \<Rightarrow>
             if dpkg_locked
             then (Inr (True, ''Retrying command because package manager is locked.''), s1)
             else if \<not> curl_found \<and> apt_get_exit_code = 0
             then (case run_command_and_log F ''apt-get update'' True True
                          (hutil_log_info ''Updating package lists to make curl available'' s1) of
                     (Inl e, s2) \<Rightarrow> (Inl e, s2)
                   | (Inr r, s2) \<Rightarrow>
                       (Inr (True, ''Retrying command because package lists needed to be updated''),
                        s2))
             else (Inr (False, []), s1))"

definition final_check_if_dpkg_locked :: final_check where
  "final_check_if_dpkg_locked exit_code output =
     (if is_dpkg_locked exit_code output then Inr DPKGLockedErrorCode else Inr exit_code)"

definition retry_onboarding :: "'w retry_check" where
  "retry_onboarding exit_code output s =
     (if exit_code = EnableErrorOMSReturned403
      then (Inr (True, ''Retrying the onboarding command to attempt generating a new agent ID and certificate.''), s)
      else if exit_code = EnableErrorOMSReturnedNon200
      then (Inr (True, ''Retrying; the OMS service may be temporarily unavailable.''), s)
      else (Inr (False, []), s))"

definition raise_if_no_internet :: final_check where
  "raise_if_no_internet exit_code output =
     (if exit_code = EnableErrorResolvingHost then Inl OMSAgentCannotConnectToOMSException
      else Inr exit_code)"

text \<open>
  The \<^verbatim>\<open>try\<close> ... \<^verbatim>\<open>except\<close> of \<^verbatim>\<open>main\<close> around the operation: the exit code that
  \<^verbatim>\<open>main\<close> hands to \<^verbatim>\<open>log_and_exit\<close> for each outcome of the operation (the message
  is not modelled). \<^verbatim>\<open>SystemExit\<close> is not an \<^verbatim>\<open>Exception\<close>: it passes the handlers
  and ends the process with its own code.
\<close>

fun main_exit_code :: "exn + int \<Rightarrow> int" where
  "main_exit_code (Inr exit_code) = exit_code"
| "main_exit_code (Inl (OMSAgentParameterMissingError m)) = 11"
| "main_exit_code (Inl (OMSAgentInvalidParameterError m)) = 11"
| "main_exit_code (Inl (OMSAgentUnwantedMultipleConnectionsException m)) = 10"
| "main_exit_code (Inl OMSAgentCannotConnectToOMSException) = 55"
| "main_exit_code (Inl (SystemExit exit_code)) = exit_code"
| "main_exit_code (Inl e) = 1"

section \<open>Validation of the workspace parameters\<close>

definition is_hex :: "char \<Rightarrow> bool" where
  "is_hex c = (let n = (of_char c :: nat)
               in (48 \<le> n \<and> n \<le> 57) \<or> (97 \<le> n \<and> n \<le> 102) \<or> (65 \<le> n \<and> n \<le> 70))"

text \<open>Matching a piece of a pattern at the start of a string gives the rest of the string.\<close>

definition hex_run :: "nat \<Rightarrow> string \<Rightarrow> string option" where
  "hex_run n s = (if n \<le> length s \<and> list_all is_hex (take n s) then Some (drop n s) else None)"

definition lit :: "string \<Rightarrow> string \<Rightarrow> string option" where
  "lit p s = (if starts_with s p then Some (drop (length p) s) else None)"

text \<open>\<^verbatim>\<open>GUIDRegex\<close>: 8, 4, 4, 4 and 12 hexadecimal digits, joined by dashes.\<close>

definition guid_prefix :: "string \<Rightarrow> string option" where
  "guid_prefix s =
     Option.bind (hex_run 8 s) (\<lambda>r1.
     Option.bind (lit ''-'' r1) (\<lambda>r2.
     Option.bind (hex_run 4 r2) (\<lambda>r3.
     Option.bind (lit ''-'' r3) (\<lambda>r4.
     Option.bind (hex_run 4 r4) (\<lambda>r5.
     Option.bind (lit ''-'' r5) (\<lambda>r6.
     Option.bind (hex_run 4 r6) (\<lambda>r7.
     Option.bind (lit ''-'' r7) (\<lambda>r8.
     hex_run 12 r8))))))))"

text \<open>
  \<^verbatim>\<open>re.compile(GUIDOnlyRegex, re.M).match(s)\<close>: a GUID at the start of \<open>s\<close>, and then
  \<^verbatim>\<open>$\<close>, which in multi-line mode holds at the end of \<open>s\<close> and before a line feed.
\<close>

definition guid_only_match :: "string \<Rightarrow> bool" where
  "guid_only_match s =
     (case guid_prefix s of
        None \<Rightarrow> False
      | Some r \<Rightarrow> r = [] \<or> hd r = newline)"

definition check_workspace_id :: "string \<Rightarrow> exn + unit" where
  "check_workspace_id workspace_id =
     (if \<not> guid_only_match workspace_id
      then Inl (OMSAgentInvalidParameterError ''Workspace ID is invalid'')
      else Inr ())"


section \<open>Detection of other connections\<close>

definition SCOMPort :: string where
  "SCOMPort = ''1270''"

definition OMSAdminPath :: string where
  "OMSAdminPath = ''/opt/microsoft/omsagent/bin/omsadmin.sh''"


definition OMIConfigEditorPath :: string where
  "OMIConfigEditorPath = ''/opt/omi/bin/omiconfigeditor''"

definition OMIServerConfPath :: string where
  "OMIServerConfPath = ''/etc/opt/omi/conf/omiserver.conf''"

definition EtcOMSAgentPath :: string where
  "EtcOMSAgentPath = ''/etc/opt/microsoft/omsagent/''"

definition SCOMCertPath :: string where
  "SCOMCertPath = ''/etc/opt/microsoft/scx/ssl/scx.pem''"

definition WorkspaceCheckCommand :: string where
  "WorkspaceCheckCommand = OMSAdminPath @ '' -l''"


text \<open>
  Where \<^verbatim>\<open>^\<close> holds in multi-line mode: at the start of the text and after every line
  feed. The list gives the text from each of these places on, from left to right.
\<close>

fun after_newlines :: "string \<Rightarrow> string list" where
  "after_newlines [] = []"
| "after_newlines (c # cs) =
     (if c = newline then cs # after_newlines cs else after_newlines cs)"

definition line_starts :: "string \<Rightarrow> string list" where
  "line_starts txt = txt # after_newlines txt"

fun first_some :: "('a \<Rightarrow> 'b option) \<Rightarrow> 'a list \<Rightarrow> 'b option" where
  "first_some f [] = None"
| "first_some f (x # xs) = (case f x of Some y \<Rightarrow> Some y | None \<Rightarrow> first_some f xs)"

text \<open>
  \<^verbatim>\<open>SCOMCertIssuerRegex\<close>, from a place where \<^verbatim>\<open>^\<close> holds: white space (\<^verbatim>\<open>[\s]*\<close> also
  runs over line feeds), \<^verbatim>\<open>Issuer:\<close>, white space,
  \<^verbatim>\<open>CN=SCX-Certificate/title=SCX\<close>, a GUID and \<^verbatim>\<open>, DC=\<close>; the closing \<^verbatim>\<open>.*$\<close> always
  matches. The text after each run of white space starts with a character that is
  not white space, so only the longest run can match.
\<close>

definition issuer_at :: "string \<Rightarrow> bool" where
  "issuer_at txt =
     (case lit ''Issuer:'' (dropWhile is_space txt) of
        None \<Rightarrow> False
      | Some r1 \<Rightarrow>
          (case lit ''CN=SCX-Certificate/title=SCX'' (dropWhile is_space r1) of
             None \<Rightarrow> False
           | Some r2 \<Rightarrow>
               (case guid_prefix r2 of
                  None \<Rightarrow> False
                | Some r3 \<Rightarrow> starts_with r3 '', DC='')))"

definition issuer_search :: "string \<Rightarrow> bool" where
  "issuer_search cert_output = list_ex issuer_at (line_starts cert_output)"

text \<open>
  The pattern \<^verbatim>\<open>^[\s]*httpsport[\s]*=(.*)$\<close> from a place where \<^verbatim>\<open>^\<close> holds; the result
  is group 1, the rest of the line after the equals sign. \<^verbatim>\<open>search\<close> takes the
  leftmost place where the pattern matches.
\<close>

definition httpsport_at :: "string \<Rightarrow> string option" where
  "httpsport_at txt =
     (case lit ''httpsport'' (dropWhile is_space txt) of
        None \<Rightarrow> None
      | Some r1 \<Rightarrow>
          (case lit ''='' (dropWhile is_space r1) of
             None \<Rightarrow> None
           | Some r2 \<Rightarrow> Some (takeWhile (\<lambda>c. c \<noteq> newline) r2)))"

definition httpsport_search :: "string \<Rightarrow> string option" where
  "httpsport_search omiserver_txt = first_some httpsport_at (line_starts omiserver_txt)"

definition exit_if_openssl_unavailable :: "'w facility \<Rightarrow> string \<Rightarrow> ('w, int) action" where
  "exit_if_openssl_unavailable F operation s =
     (case run_get_output F ''which openssl'' True False s of
        (Inl e, s1) \<Rightarrow> (Inl e, s1)
      | (Inr (exit_code, output), s1) \<Rightarrow>
          if exit_code \<noteq> 0
          then log_and_exit operation UnsupportedOpenSSL ''OpenSSL is not available'' s1
          else (Inr 0, s1))"

definition detect_scom_using_omsadmin :: "'w facility \<Rightarrow> ('w, bool) action" where
  "detect_scom_using_omsadmin F s =
     (let omsadmin_cmd = OMSAdminPath @ '' -o''
      in case run_get_output F omsadmin_cmd False False s of
           (Inl e, s1) \<Rightarrow> (Inl e, s1)
         | (Inr (exit_code, output), s1) \<Rightarrow>
             if \<not> py_in ''illegal option'' (py_lower output)
                \<and> \<not> py_in ''unknown option'' (py_lower output)
             then (if exit_code = 0
                   then (Inr True,
                         hutil_log_info (''According to '' @ omsadmin_cmd
                                         @ '', SCOM port is open'') s1)
                   else if exit_code = 1
                   then (Inr False,
                         hutil_log_info (''According to '' @ omsadmin_cmd
                                         @ '', SCOM port is not open'') s1)
                   else (Inr False, s1))
             else (Inr False, s1))"

definition detect_scom_using_omiconfigeditor :: "'w facility \<Rightarrow> ('w, bool) action" where
  "detect_scom_using_omiconfigeditor F s =
     (let omi_cmd = OMIConfigEditorPath @ '' httpsport -q '' @ SCOMPort @ '' < ''
                    @ OMIServerConfPath
      in case run_get_output F omi_cmd False False s of
           (Inl e, s1) \<Rightarrow> (Inl e, s1)
         | (Inr (exit_code, output), s1) \<Rightarrow>
             if \<not> py_in ''illegal option'' (py_lower output)
                \<and> \<not> py_in ''unknown option'' (py_lower output)
             then (if exit_code = 0
                   then (Inr True,
                         hutil_log_info (''According to '' @ omi_cmd
                                         @ '', SCOM port is open'') s1)
                   else if exit_code = 1
                   then (Inr False,
                         hutil_log_info (''According to '' @ omi_cmd
                                         @ '', SCOM port is not open'') s1)
                   else (Inr False, s1))
             else (Inr False, s1))"

definition detect_scom_using_omiserver_conf :: "'w facility \<Rightarrow> ('w, bool) action" where
  "detect_scom_using_omiserver_conf F s =
     (case read_file F OMIServerConfPath (host s) of
        None \<Rightarrow> (Inl IOError, s)
      | Some omiserver_txt \<Rightarrow>
          (case httpsport_search omiserver_txt of
             Some ports \<Rightarrow>
               (let ports_list = py_split CHR '' '' (py_replace CHR '','' CHR '' '' ports)
                in if SCOMPort \<in> set ports_list
                   then (Inr True,
                         hutil_log_info (''SCOM port is listed in '' @ OMIServerConfPath) s)
                   else (Inr False,
                         hutil_log_info (''SCOM port is not listed in '' @ OMIServerConfPath) s))
           | None \<Rightarrow>
               (Inr False,
                hutil_log_info (''SCOM port is not listed in '' @ OMIServerConfPath) s)))"

text \<open>
  The first half of \<^verbatim>\<open>detect_scom_connection\<close> (the three blocks that set
  \<^verbatim>\<open>scom_port_open\<close>): the result is the value of \<^verbatim>\<open>scom_port_open\<close> when the blocks
  are left, \<open>Some False\<close> where the function returns on \<^verbatim>\<open>scom_port_open is False\<close>.
\<close>

definition scom_port_probe :: "'w facility \<Rightarrow> ('w, bool option) action" where
  "scom_port_probe F s =
     (case (if path_exists F OMSAdminPath (host s)
            then (case detect_scom_using_omsadmin F s of
                    (Inl e, s1) \<Rightarrow> (Inl e, s1)
                  | (Inr b, s1) \<Rightarrow> (Inr (Some b), s1))
            else (Inr None, s)) of
        (Inl e, s1) \<Rightarrow> (Inl e, s1)
      | (Inr (Some b), s1) \<Rightarrow> (Inr (Some b), s1)
      | (Inr None, s1) \<Rightarrow>
          (case (if path_exists F OMIConfigEditorPath (host s1)
                    \<and> path_exists F OMIServerConfPath (host s1)
                 then (case detect_scom_using_omiconfigeditor F s1 of
                         (Inl e, s2) \<Rightarrow> (Inl e, s2)
                       | (Inr b, s2) \<Rightarrow> (Inr (Some b), s2))
                 else (Inr None, s1)) of
             (Inl e, s2) \<Rightarrow> (Inl e, s2)
           | (Inr (Some b), s2) \<Rightarrow> (Inr (Some b), s2)
           | (Inr None, s2) \<Rightarrow>
               (if path_exists F OMIServerConfPath (host s2)
                then (case detect_scom_using_omiserver_conf F s2 of
                        (Inl e, s3) \<Rightarrow> (Inl e, s3)
                      | (Inr b, s3) \<Rightarrow> (Inr (Some b), s3))
                else (Inr None, s2))))"

text \<open>
  The second half of \<^verbatim>\<open>detect_scom_connection\<close>: the value of
  \<^verbatim>\<open>cert_signed_by_scom\<close> after the certificate has been looked at.
\<close>

definition scom_cert_probe :: "'w facility \<Rightarrow> ('w, bool) action" where
  "scom_cert_probe F s =
     (if path_exists F SCOMCertPath (host s)
      then (case exit_if_openssl_unavailable F ''Install'' s of
              (Inl e, s1) \<Rightarrow> (Inl e, s1)
            | (Inr z, s1) \<Rightarrow>
                (case run_get_output F (''openssl x509 -in '' @ SCOMCertPath @ '' -noout -text'')
                        False False s1 of
                   (Inl e, s2) \<Rightarrow> (Inl e, s2)
                 | (Inr (cert_exit_code, cert_output), s2) \<Rightarrow>
                     if cert_exit_code = 0
                     then (if issuer_search cert_output
                           then (Inr True,
                                 hutil_log_info ''SCOM cert exists and is signed by SCOM server'' s2)
                           else (Inr False,
                                 hutil_log_info ''SCOM cert exists but is not signed by SCOM server'' s2))
                     else (Inr False,
                           hutil_log_error ''Error reading SCOM cert; cert could not be determined to be signed by SCOM server'' s2)))
      else (Inr False, hutil_log_info ''SCOM cert does not exist'' s))"

definition scom_err_msg :: string where
  "scom_err_msg = ''This machine may already be connected to a System Center Operations Manager server. Please set stopOnMultipleConnections to false in public settings or remove this property to allow connection to the Log Analytics workspace. (LINUXOMSAGENTEXTENSION_ERROR_MULTIPLECONNECTIONS)''"

definition detect_scom_connection :: "'w facility \<Rightarrow> ('w, unit) action" where
  "detect_scom_connection F s =
     (case scom_port_probe F s of
        (Inl e, s1) \<Rightarrow> (Inl e, s1)
      | (Inr (Some False), s1) \<Rightarrow> (Inr (), s1)
      | (Inr None, s1) \<Rightarrow>
          (Inr (), hutil_log_info ''SCOM port could not be determined to be open'' s1)
      | (Inr (Some True), s1) \<Rightarrow>
          (case scom_cert_probe F s1 of
             (Inl e, s2) \<Rightarrow> (Inl e, s2)
           | (Inr cert_signed_by_scom, s2) \<Rightarrow>
               if cert_signed_by_scom
               then (Inl (OMSAgentUnwantedMultipleConnectionsException scom_err_msg), s2)
               else (Inr (), s2)))"

text \<open>
  The two loops of \<^verbatim>\<open>detect_multiple_connections\<close>: either the function returns from
  inside the loop, because the workspace is already configured, or the loop ends with
  a value of \<^verbatim>\<open>other_connection_exists\<close>.
\<close>

datatype scan = AlreadyConfigured | Scanned bool

fun scan_lines :: "string \<Rightarrow> string list \<Rightarrow> bool \<Rightarrow> scan" where
  "scan_lines workspace_id [] other_connection_exists = Scanned other_connection_exists"
| "scan_lines workspace_id (line # rest) other_connection_exists =
     (if py_in workspace_id line then AlreadyConfigured
      else scan_lines workspace_id rest True)"

definition basename :: "string \<Rightarrow> string" where
  "basename p = rev (takeWhile (\<lambda>c. c \<noteq> CHR ''/'') (rev p))"

fun scan_sub_dirs :: "string \<Rightarrow> string list \<Rightarrow> bool \<Rightarrow> scan" where
  "scan_sub_dirs workspace_id [] other_connection_exists = Scanned other_connection_exists"
| "scan_sub_dirs workspace_id (sub_dir # rest) other_connection_exists =
     (let sub_dir_name = basename sub_dir
      in if sub_dir_name = workspace_id then AlreadyConfigured
         else if guid_only_match sub_dir_name \<or> sub_dir_name = ''scom''
         then scan_sub_dirs workspace_id rest True
         else scan_sub_dirs workspace_id rest other_connection_exists)"

fun scan_walk :: "string \<Rightarrow> (string \<times> string list \<times> string list) list \<Rightarrow> bool \<Rightarrow> scan" where
  "scan_walk workspace_id [] other_connection_exists = Scanned other_connection_exists"
| "scan_walk workspace_id ((dir_name, sub_dirs, files) # rest) other_connection_exists =
     (case scan_sub_dirs workspace_id sub_dirs other_connection_exists of
        AlreadyConfigured \<Rightarrow> AlreadyConfigured
      | Scanned other \<Rightarrow> scan_walk workspace_id rest other)"

definition already_configured_msg :: string where
  "already_configured_msg = ''The workspace to be enabled has already been configured on the VM before; continuing despite stopOnMultipleConnections flag''"

definition multiple_err_msg :: string where
  "multiple_err_msg = ''This machine is already connected to some other Log Analytics workspace, please set stopOnMultipleConnections to false in public settings or remove this property, so this machine can connect to new workspaces, also it means this machine will get billed multiple times for each workspace it report to. (LINUXOMSAGENTEXTENSION_ERROR_MULTIPLECONNECTIONS)''"

text \<open>What \<^verbatim>\<open>detect_multiple_connections\<close> does once the enumeration has been scanned.\<close>

definition after_scan :: "'w facility \<Rightarrow> scan \<Rightarrow> ('w, unit) action" where
  "after_scan F found s =
     (case found of
        AlreadyConfigured \<Rightarrow> (Inr (), hutil_log_info already_configured_msg s)
      | Scanned other_connection_exists \<Rightarrow>
          if other_connection_exists
          then (Inl (OMSAgentUnwantedMultipleConnectionsException multiple_err_msg), s)
          else detect_scom_connection F s)"

definition detect_multiple_connections :: "'w facility \<Rightarrow> string \<Rightarrow> ('w, unit) action" where
  "detect_multiple_connections F workspace_id s =
     (if path_exists F OMSAdminPath (host s)
      then (case run_get_output F WorkspaceCheckCommand False True s of
              (Inl e, s1) \<Rightarrow> (Inl e, s1)
            | (Inr (exit_code, output), s1) \<Rightarrow>
                if py_lower (py_strip output) \<noteq> ''no workspace''
                then after_scan F (scan_lines workspace_id (py_split newline output) False) s1
                else after_scan F (Scanned False) s1)
      else after_scan F (scan_walk workspace_id (os_walk F EtcOMSAgentPath (host s)) False) s)"

section \<open>The enable operation\<close>



section \<open>A host for examples\<close>

text \<open>
  A host whose answers never change: \<open>answers\<close> gives the exit code and raw output of
  each command, \<open>present\<close> lists the paths that exist, \<open>tree\<close> is what \<^verbatim>\<open>os.walk\<close> yields
  and \<open>files\<close> the contents of the readable files.
\<close>

definition static_host ::
  "(string \<Rightarrow> int \<times> string) \<Rightarrow> string list \<Rightarrow> (string \<times> string list \<times> string list) list \<Rightarrow>
   (string \<Rightarrow> string option) \<Rightarrow> unit facility" where
  "static_host answers present tree files =
     \<lparr>check_output = (\<lambda>cmd h. (answers cmd, h)),
      path_exists = (\<lambda>p h. p \<in> set present),
      os_walk = (\<lambda>p h. tree),
      read_file = (\<lambda>p h. files p)\<rparr>"

text \<open>A host on which every command gives the same exit code and output.\<close>

definition uniform_host :: "int \<times> string \<Rightarrow> unit facility" where
  "uniform_host answer = static_host (\<lambda>cmd. answer) [] [] (\<lambda>p. None)"

definition start :: "unit state" where
  "start = \<lparr>host = (), trace = []\<rparr>"

definition always_retry :: "unit retry_check" where
  "always_retry exit_code output s = (Inr (True, ''Retrying''), s)"

definition never_retry :: "unit retry_check" where
  "never_retry exit_code output s = (Inr (False, []), s)"



text \<open>
  Hosts for the detection of other connections. The target workspace of the examples
  is \<open>target_workspace\<close>.
\<close>

definition target_workspace :: string where
  "target_workspace = ''94a1f46d-2ced-4739-9b6a-1f06156ca4ac''"

text \<open>The onboarding script lists a SCOM entry and the target workspace.\<close>

definition host_same_workspace :: "unit facility" where
  "host_same_workspace =
     static_host
       (\<lambda>cmd. if cmd = WorkspaceCheckCommand
              then (0, ''Workspace(SCOM Workspace): scom'' @ [newline]
                       @ ''Primary Workspace: 94a1f46d-2ced-4739-9b6a-1f06156ca4ac''
                       @ ''    Status: Onboarded(OMSAgent Running)'' @ [newline])
              else (0, []))
       [OMSAdminPath] [] (\<lambda>p. None)"

text \<open>No onboarding script; the configuration root holds a SCOM directory and the target.\<close>

definition host_same_workspace_dirs :: "unit facility" where
  "host_same_workspace_dirs =
     static_host (\<lambda>cmd. (0, [])) []
       [(EtcOMSAgentPath, [''scom'', ''94a1f46d-2ced-4739-9b6a-1f06156ca4ac'', ''conf''], []),
        (EtcOMSAgentPath @ ''scom'', [], []),
        (EtcOMSAgentPath @ ''94a1f46d-2ced-4739-9b6a-1f06156ca4ac'', [], []),
        (EtcOMSAgentPath @ ''conf'', [], [])]
       (\<lambda>p. None)"






definition scom_host :: "int \<times> string \<Rightarrow> int \<times> string \<Rightarrow> string list \<Rightarrow> unit facility" where
  "scom_host which_openssl x509 present =
     static_host
       (\<lambda>cmd. if cmd = OMSAdminPath @ '' -o'' then (0, [])
              else if cmd = ''which openssl'' then which_openssl
              else if cmd = ''openssl x509 -in '' @ SCOMCertPath @ '' -noout -text'' then x509
              else (1, []))
       present [] (\<lambda>p. None)"

text \<open>
  In \<open>conf_host\<close> there is no onboarding script; \<open>editor\<close> is the answer of the config
  editor and the server configuration file holds the line \<^verbatim>\<open>httpsport = 1270,8080\<close>.
\<close>

definition conf_host :: "int \<times> string \<Rightarrow> string list \<Rightarrow> unit facility" where
  "conf_host editor present =
     static_host (\<lambda>cmd. editor) present []
       (\<lambda>p. if p = OMIServerConfPath then Some ''httpsport = 1270,8080'' else None)"

section \<open>The attempts of a run\<close>

text \<open>
  The host after the command has been run \<open>i\<close> times from the host \<open>h\<close>, when nothing
  else changes the host in between, and what \<^verbatim>\<open>run_get_output\<close> returns for the run
  that follows: attempt 0 is the first run of the command, attempt \<open>i\<close> the one after
  \<open>i\<close> retries.
\<close>

fun host_after :: "'w facility \<Rightarrow> string \<Rightarrow> nat \<Rightarrow> 'w \<Rightarrow> 'w" where
  "host_after F cmd 0 h = h"
| "host_after F cmd (Suc i) h = host_after F cmd i (snd (check_output F cmd h))"

definition raw_output :: "'w facility \<Rightarrow> string \<Rightarrow> 'w \<Rightarrow> nat \<Rightarrow> string" where
  "raw_output F cmd h i = snd (fst (check_output F cmd (host_after F cmd i h)))"

definition attempt :: "'w facility \<Rightarrow> string \<Rightarrow> 'w \<Rightarrow> nat \<Rightarrow> int \<times> string" where
  "attempt F cmd h i =
     (fst (fst (check_output F cmd (host_after F cmd i h))), py_strip (raw_output F cmd h i))"




text \<open>
  The onboarding script lists the target workspace, and its output holds one byte
  above 127 (a Latin-1 letter in the status text).
\<close>

definition host_same_workspace_latin1 :: "unit facility" where
  "host_same_workspace_latin1 =
     static_host
       (\<lambda>cmd. if cmd = WorkspaceCheckCommand
              then (0, ''Primary Workspace: 94a1f46d-2ced-4739-9b6a-1f06156ca4ac''
                       @ ''    Status: Onboard'' @ [CHR 0xE9] @ [newline])
              else (0, []))
       [OMSAdminPath] [] (\<lambda>p. None)"

text \<open>
  In \<open>conf_file_host\<close> there is no onboarding script and the server configuration file
  holds the text \<open>omiserver_txt\<close>; \<open>editor\<close> is the answer of the config editor.
\<close>

definition conf_file_host :: "int \<times> string \<Rightarrow> string \<Rightarrow> string list \<Rightarrow> unit facility" where
  "conf_file_host editor omiserver_txt present =
     static_host (\<lambda>cmd. editor) present []
       (\<lambda>p. if p = OMIServerConfPath then Some omiserver_txt else None)"

definition omiserver_example :: string where
  "omiserver_example =
     ''## omiserver configuration'' @ [newline]
     @ ''httpport=0'' @ [newline]
     @ ''httpsport = 1270,8080'' @ [newline]
     @ ''loglevel = WARNING'' @ [newline]"

section \<open>Counting effects in the trace\<close>

lemma executions_emit:
  "executions cmd (trace (emit e s)) = executions cmd (trace s) + (if e = Executed cmd then 1 else 0)"
  by (simp add: executions_def emit_def)

lemma sleeps_emit:
  "sleeps (trace (emit e s)) = sleeps (trace s) + (if is_sleep e then 1 else 0)"
  by (simp add: sleeps_def emit_def)

lemma trace_host_update [simp]: "trace (s\<lparr>host := h\<rparr>) = trace s"
  by simp

lemma run_get_output_executions:
  "executions cmd (trace (snd (run_get_output F cmd ce lc s))) = executions cmd (trace s) + 1"
  by (simp add: run_get_output_def executions_emit split: prod.splits sum.splits)

lemma run_get_output_sleeps:
  "sleeps (trace (snd (run_get_output F c ce lc s))) = sleeps (trace s)"
  by (simp add: run_get_output_def sleeps_emit split: prod.splits sum.splits)

lemma run_command_and_log_executions:
  "executions cmd (trace (snd (run_command_and_log F cmd ce lc s))) = executions cmd (trace s) + 1"
  using run_get_output_executions [of cmd F ce lc s]
  by (auto simp: run_command_and_log_def hutil_log_info_def executions_emit split: prod.splits sum.splits)

lemma run_command_and_log_sleeps:
  "sleeps (trace (snd (run_command_and_log F c ce lc s))) = sleeps (trace s)"
  using run_get_output_sleeps [of F c ce lc s]
  by (auto simp: run_command_and_log_def hutil_log_info_def sleeps_emit split: prod.splits sum.splits)

lemma run_command_and_log_ascii:
  "is_ascii (snd (fst (check_output F cmd (host s)))) \<Longrightarrow>
   \<exists>c out s1. run_command_and_log F cmd ce lc s = (Inr (c, out), s1)"
  by (auto simp: run_command_and_log_def run_get_output_def encode_utf8_def split: prod.splits sum.splits)

section \<open>The number of attempts\<close>

lemma retry_loop_always_executions:
  assumes asc: "\<forall>h. is_ascii (snd (fst (check_output F cmd h)))"
      and rc: "\<forall>c out t. \<exists>msg t'. rc c out t = (Inr (True, msg), t')
                 \<and> executions cmd (trace t') = executions cmd (trace t)"
  shows "k = nat (retries + 1 - tc) \<Longrightarrow>
         executions cmd (trace (snd (retry_loop F cmd retries rc ce lc f tc st prev s)))
           = executions cmd (trace s) + k"
proof (induction k arbitrary: tc st prev s)
  case 0
  then have "\<not> tc \<le> retries" by simp
  then show ?case by (simp add: retry_loop.simps)
next
  case (Suc k)
  then have le: "tc \<le> retries" and k: "k = nat (retries + 1 - (tc + 1))" by simp_all
  obtain c out s1 where run: "run_command_and_log F cmd ce lc s = (Inr (c, out), s1)"
    using run_command_and_log_ascii [of F cmd s ce lc] asc by blast
  have e1: "executions cmd (trace s1) = executions cmd (trace s) + 1"
    using run_command_and_log_executions [of cmd F ce lc s] run by simp
  obtain msg s2 where pol: "rc c out s1 = (Inr (True, msg), s2)"
      and e2: "executions cmd (trace s2) = executions cmd (trace s1)"
    using rc by blast
  let ?s3 = "time_sleep st (hutil_log_info msg s2)"
  have e3: "executions cmd (trace ?s3) = executions cmd (trace s2)"
    by (simp add: time_sleep_def hutil_log_info_def executions_emit)
  have "retry_loop F cmd retries rc ce lc f tc st prev s
          = retry_loop F cmd retries rc ce lc f (tc + 1) (st * f) (Some (c, out)) ?s3"
    using le run pol by (subst retry_loop.simps) simp
  then show ?case
    using Suc.IH [OF k, of "st * f" "Some (c, out)" ?s3] e1 e2 e3 by simp
qed

lemma retry_loop_zero_executions:
  assumes q: "\<forall>c out t. executions cmd (trace (snd (rc c out t))) = executions cmd (trace t)"
  shows "executions cmd (trace (snd (retry_loop F cmd 0 rc ce lc f 0 st prev s)))
           = executions cmd (trace s) + 1"
proof -
  have e1: "executions cmd (trace (snd (run_command_and_log F cmd ce lc s)))
              = executions cmd (trace s) + 1"
    by (rule run_command_and_log_executions)
  show ?thesis
  proof (cases "run_command_and_log F cmd ce lc s")
    case (Pair r s1)
    show ?thesis
    proof (cases r)
      case (Inl e)
      then show ?thesis using Pair e1 by (subst retry_loop.simps) simp
    next
      case (Inr co)
      obtain c out where co: "co = (c, out)" by (cases co)
      have e2: "executions cmd (trace (snd (rc c out s1))) = executions cmd (trace s1)"
        using q by blast
      show ?thesis
      proof (cases "rc c out s1")
        case (Pair r2 s2)
        note P2 = this
        show ?thesis
        proof (cases r2)
          case (Inl e)
          then show ?thesis using \<open>run_command_and_log F cmd ce lc s = (r, s1)\<close> Inr co P2 e1 e2
            by (subst retry_loop.simps) simp
        next
          case (Inr bm)
          obtain b msg where bm: "bm = (b, msg)" by (cases bm)
          show ?thesis
          proof (cases b)
            case False
            then show ?thesis
              using \<open>run_command_and_log F cmd ce lc s = (r, s1)\<close> \<open>r = Inr co\<close> co P2 Inr bm e1 e2
              by (subst retry_loop.simps) simp
          next
            case True
            have "retry_loop F cmd 0 rc ce lc f 0 st prev s
                    = retry_loop F cmd 0 rc ce lc f 1 (st * f) (Some (c, out))
                        (time_sleep st (hutil_log_info msg s2))"
              using \<open>run_command_and_log F cmd ce lc s = (r, s1)\<close> \<open>r = Inr co\<close> co P2 Inr bm True
              by (subst retry_loop.simps) simp
            also have "\<dots> = (Inr (Some (c, out)), time_sleep st (hutil_log_info msg s2))"
              by (subst retry_loop.simps) simp
            finally show ?thesis
              using \<open>run_command_and_log F cmd ce lc s = (r, s1)\<close> P2 e1 e2
              by (simp add: time_sleep_def hutil_log_info_def executions_emit)
          qed
        qed
      qed
    qed
  qed
qed

lemma run_command_with_retries_trace:
  "snd (run_command_with_retries F cmd retries rc fc ce lc st f s)
     = snd (retry_loop F cmd retries rc ce lc f 0 st None s)"
  by (simp add: run_command_with_retries_def split: prod.splits sum.splits option.splits)

lemma retry_loop_first_attempt_raises:
  assumes "0 \<le> retries" and "\<not> is_ascii (snd (fst (check_output F cmd (host s))))"
  shows "fst (retry_loop F cmd retries rc ce lc f 0 st prev s) = Inl UnicodeDecodeError
         \<and> executions cmd (trace (snd (retry_loop F cmd retries rc ce lc f 0 st prev s)))
             = executions cmd (trace s) + 1"
proof -
  obtain c raw h where co: "check_output F cmd (host s) = ((c, raw), h)"
    by (metis surj_pair)
  then have "\<not> is_ascii raw" using assms(2) by simp
  then have "run_command_and_log F cmd ce lc s
               = (Inl UnicodeDecodeError, emit (Executed cmd) (s\<lparr>host := h\<rparr>))"
    using co by (simp add: run_command_and_log_def run_get_output_def encode_utf8_def)
  then obtain s1 where r: "run_command_and_log F cmd ce lc s = (Inl UnicodeDecodeError, s1)"
    by blast
  have e: "executions cmd (trace s1) = executions cmd (trace s) + 1"
    using run_command_and_log_executions [of cmd F ce lc s] r by simp
  have "retry_loop F cmd retries rc ce lc f 0 st prev s = (Inl UnicodeDecodeError, s1)"
    using assms(1) r by (subst retry_loop.simps) simp
  then show ?thesis using e by simp
qed

text \<open>
  C1, as amended. With \<open>retries = n \<ge> 0\<close>, a command whose output is ASCII (so that
  \<^verbatim>\<open>run_get_output\<close> can encode it) and a retry check that always answers \<open>(True, msg)\<close>
  and does not run the command itself, \<^verbatim>\<open>run_command_with_retries\<close> runs the command
  exactly \<open>n + 1\<close> times. With \<open>retries = 0\<close> it runs the command exactly once,
  whatever the output is and whatever a retry check that does not run the command
  itself answers. When the output of the first attempt holds a byte above 127, that
  attempt raises \<^verbatim>\<open>UnicodeDecodeError\<close> and the command has been run exactly once.
\<close>

theorem run_command_with_retries_attempts:
  "((0 \<le> n \<and> (\<forall>h. is_ascii (snd (fst (check_output F cmd h))))
      \<and> (\<forall>c out t. \<exists>msg t'. retry_check c out t = (Inr (True, msg), t')
             \<and> executions cmd (trace t') = executions cmd (trace t)))
     \<longrightarrow> executions cmd (trace (snd (run_command_with_retries F cmd n retry_check final_check
             check_error log_cmd initial_sleep_time sleep_increase_factor s)))
           = executions cmd (trace s) + nat n + 1)
   \<and> ((\<forall>c out t. executions cmd (trace (snd (retry_check c out t))) = executions cmd (trace t))
     \<longrightarrow> executions cmd (trace (snd (run_command_with_retries F cmd 0 retry_check final_check
             check_error log_cmd initial_sleep_time sleep_increase_factor s)))
           = executions cmd (trace s) + 1)
   \<and> ((0 \<le> n \<and> \<not> is_ascii (snd (fst (check_output F cmd (host s)))))
     \<longrightarrow> executions cmd (trace (snd (run_command_with_retries F cmd n retry_check final_check
             check_error log_cmd initial_sleep_time sleep_increase_factor s)))
           = executions cmd (trace s) + 1
         \<and> fst (run_command_with_retries F cmd n retry_check final_check
             check_error log_cmd initial_sleep_time sleep_increase_factor s)
           = Inl UnicodeDecodeError)"
proof (intro conjI impI)
  assume h: "0 \<le> n \<and> (\<forall>h. is_ascii (snd (fst (check_output F cmd h))))
      \<and> (\<forall>c out t. \<exists>msg t'. retry_check c out t = (Inr (True, msg), t')
             \<and> executions cmd (trace t') = executions cmd (trace t))"
  then have "0 \<le> n" by blast
  then have "nat (n + 1 - 0) = nat n + 1" by arith
  then show "executions cmd (trace (snd (run_command_with_retries F cmd n retry_check final_check
             check_error log_cmd initial_sleep_time sleep_increase_factor s)))
           = executions cmd (trace s) + nat n + 1"
    using h retry_loop_always_executions [of F cmd retry_check "nat (n + 1 - 0)" n 0
            check_error log_cmd sleep_increase_factor initial_sleep_time None s]
    by (simp add: run_command_with_retries_trace)
next
  assume "\<forall>c out t. executions cmd (trace (snd (retry_check c out t))) = executions cmd (trace t)"
  then show "executions cmd (trace (snd (run_command_with_retries F cmd 0 retry_check final_check
             check_error log_cmd initial_sleep_time sleep_increase_factor s)))
           = executions cmd (trace s) + 1"
    using retry_loop_zero_executions [of cmd retry_check F check_error log_cmd
            sleep_increase_factor initial_sleep_time None s]
    by (simp add: run_command_with_retries_trace)
next
  assume h: "0 \<le> n \<and> \<not> is_ascii (snd (fst (check_output F cmd (host s))))"
  show "executions cmd (trace (snd (run_command_with_retries F cmd n retry_check final_check
             check_error log_cmd initial_sleep_time sleep_increase_factor s)))
           = executions cmd (trace s) + 1"
    using h retry_loop_first_attempt_raises
            [of n F cmd s retry_check check_error log_cmd sleep_increase_factor
                initial_sleep_time None]
    by (simp add: run_command_with_retries_trace)
next
  assume h: "0 \<le> n \<and> \<not> is_ascii (snd (fst (check_output F cmd (host s))))"
  obtain s1 where "retry_loop F cmd n retry_check check_error log_cmd sleep_increase_factor 0
                     initial_sleep_time None s = (Inl UnicodeDecodeError, s1)"
    using h retry_loop_first_attempt_raises
            [of n F cmd s retry_check check_error log_cmd sleep_increase_factor
                initial_sleep_time None]
    by (metis prod.collapse)
  then show "fst (run_command_with_retries F cmd n retry_check final_check
             check_error log_cmd initial_sleep_time sleep_increase_factor s)
           = Inl UnicodeDecodeError"
    by (simp add: run_command_with_retries_def)
qed

theorem run_command_with_retries_attempts_witness:
  "executions ''install'' (trace (snd (run_command_with_retries (uniform_host (1, ''busy''))
       ''install'' 2 always_retry None True True 30 1 start))) = 3
   \<and> executions ''install'' (trace (snd (run_command_with_retries (uniform_host (1, ''busy''))
       ''install'' 0 never_retry None True True 30 1 start))) = 1
   \<and> executions ''install'' (trace (snd (run_command_with_retries (uniform_host (1, [CHR 0xFF]))
       ''install'' 2 always_retry None True True 30 1 start))) = 1"
proof -
  have a: "\<forall>h. is_ascii (snd (fst (check_output (uniform_host (1, ''busy'')) ''install'' h)))"
    by (simp add: uniform_host_def static_host_def is_ascii_def)
  have b: "\<forall>c out t. \<exists>msg t'. always_retry c out t = (Inr (True, msg), t')
             \<and> executions ''install'' (trace t') = executions ''install'' (trace t)"
    by (simp add: always_retry_def)
  have c: "\<forall>c out t. executions ''install'' (trace (snd (never_retry c out t)))
             = executions ''install'' (trace t)"
    by (simp add: never_retry_def)
  have d: "\<not> is_ascii (snd (fst (check_output (uniform_host (1, [CHR 0xFF])) ''install''
                                   (host start))))"
    by (simp add: uniform_host_def static_host_def is_ascii_def)
  have e: "executions ''install'' (trace start) = 0"
    by (simp add: start_def executions_def)
  have x: "executions ''install'' (trace (snd (run_command_with_retries
             (uniform_host (1, ''busy'')) ''install'' 2 always_retry None True True 30 1 start)))
           = 3"
    using run_command_with_retries_attempts
            [of 2 "uniform_host (1, ''busy'')" "''install''" always_retry None True True 30 1 start]
          a b e
    by simp
  have y: "executions ''install'' (trace (snd (run_command_with_retries
             (uniform_host (1, ''busy'')) ''install'' 0 never_retry None True True 30 1 start)))
           = 1"
    using run_command_with_retries_attempts
            [of 2 "uniform_host (1, ''busy'')" "''install''" never_retry None True True 30 1 start]
          c e
    by simp
  have z: "executions ''install'' (trace (snd (run_command_with_retries
             (uniform_host (1, [CHR 0xFF])) ''install'' 2 always_retry None True True 30 1 start)))
           = 1"
    using run_command_with_retries_attempts
            [of 2 "uniform_host (1, [CHR 0xFF])" "''install''" always_retry None True True 30 1
                start]
          d e
    by simp
  show ?thesis using x y z by blast
qed

text \<open>
  C1 as the specification states it fails when the output of the command cannot be
  encoded: with \<open>retries = 2\<close> and a retry check that always answers "retry", a command
  whose output holds the byte \<open>0xFF\<close> is run once, not three times, because the first
  attempt raises \<^verbatim>\<open>UnicodeDecodeError\<close>.
\<close>

theorem run_command_with_retries_one_attempt_on_non_ascii_output:
  "executions ''install'' (trace (snd (run_command_with_retries (uniform_host (1, [CHR 0xFF]))
       ''install'' 2 always_retry None True True 30 1 start))) = 1
   \<and> fst (run_command_with_retries (uniform_host (1, [CHR 0xFF]))
       ''install'' 2 always_retry None True True 30 1 start) = Inl UnicodeDecodeError"
  by code_simp

section \<open>The result of the retry loop\<close>

lemma retry_loop_result:
  "k = nat (retries + 1 - tc) \<Longrightarrow> prev \<noteq> None \<or> tc \<le> retries \<Longrightarrow>
   fst (retry_loop F cmd retries rc ce lc f tc st prev s) \<noteq> Inr None"
proof (induction k arbitrary: tc st prev s)
  case 0
  then have "\<not> tc \<le> retries" by simp
  with 0 show ?case by (simp add: retry_loop.simps)
next
  case (Suc k)
  then have le: "tc \<le> retries" and k: "k = nat (retries + 1 - (tc + 1))" by simp_all
  have ih: "\<And>st' c out s'. fst (retry_loop F cmd retries rc ce lc f (tc + 1) st' (Some (c, out)) s')
              \<noteq> Inr None"
    using Suc.IH [OF k] by simp
  show ?case
    using le ih
    by (subst retry_loop.simps) (auto split: prod.splits sum.splits)
qed

lemma retry_loop_returns:
  assumes asc: "\<forall>h. is_ascii (snd (fst (check_output F cmd h)))"
      and rc: "\<forall>c out t. \<exists>r t'. rc c out t = (Inr r, t')"
  shows "k = nat (retries + 1 - tc) \<Longrightarrow>
         \<exists>r s'. retry_loop F cmd retries rc ce lc f tc st prev s = (Inr r, s')"
proof (induction k arbitrary: tc st prev s)
  case 0
  then have "\<not> tc \<le> retries" by simp
  then show ?case by (simp add: retry_loop.simps)
next
  case (Suc k)
  then have le: "tc \<le> retries" and k: "k = nat (retries + 1 - (tc + 1))" by simp_all
  obtain c out s1 where run: "run_command_and_log F cmd ce lc s = (Inr (c, out), s1)"
    using run_command_and_log_ascii [of F cmd s ce lc] asc by blast
  obtain b msg s2 where pol: "rc c out s1 = (Inr (b, msg), s2)"
    using rc by (metis surj_pair)
  show ?case
  proof (cases b)
    case False
    then show ?thesis using le run pol by (subst retry_loop.simps) simp
  next
    case True
    then have "retry_loop F cmd retries rc ce lc f tc st prev s
          = retry_loop F cmd retries rc ce lc f (tc + 1) (st * f) (Some (c, out))
              (time_sleep st (hutil_log_info msg s2))"
      using le run pol by (subst retry_loop.simps) simp
    then show ?thesis using Suc.IH [OF k] by simp
  qed
qed

lemma retry_loop_first_raises:
  "tc \<le> retries \<Longrightarrow> \<not> is_ascii (snd (fst (check_output F cmd (host s)))) \<Longrightarrow>
   fst (retry_loop F cmd retries rc ce lc f tc st prev s) = Inl UnicodeDecodeError"
  by (subst retry_loop.simps)
     (auto simp: run_command_and_log_def run_get_output_def encode_utf8_def
           split: prod.splits sum.splits)

section \<open>The final check\<close>


section \<open>The no-internet final check\<close>

text \<open>
  C7. \<^verbatim>\<open>raise_if_no_internet\<close> raises \<^verbatim>\<open>OMSAgentCannotConnectToOMSException\<close> exactly
  when the exit code is 7 (\<^verbatim>\<open>EnableErrorResolvingHost\<close>) and returns every other exit
  code unchanged; \<^verbatim>\<open>main\<close> turns that exception into the exit code 55.
\<close>

theorem raise_if_no_internet_exit_code:
  "(raise_if_no_internet exit_code output = Inl OMSAgentCannotConnectToOMSException
      \<longleftrightarrow> exit_code = 7)
   \<and> (exit_code \<noteq> 7 \<longrightarrow> raise_if_no_internet exit_code output = Inr exit_code)
   \<and> main_exit_code (raise_if_no_internet 7 output) = 55"
  by (simp add: raise_if_no_internet_def EnableErrorResolvingHost_def)

theorem raise_if_no_internet_exit_code_witness:
  "raise_if_no_internet 6 ''Error resolving host'' = Inr 6
   \<and> raise_if_no_internet 7 ''Error resolving host'' = Inl OMSAgentCannotConnectToOMSException
   \<and> main_exit_code (raise_if_no_internet 7 ''Error resolving host'') = 55"
  using raise_if_no_internet_exit_code [of 6 "''Error resolving host''"]
        raise_if_no_internet_exit_code [of 7 "''Error resolving host''"]
  by simp

section \<open>Sleeping between attempts\<close>

text \<open>
  C8. After the last attempt allowed by \<open>retries\<close>, a retry check that answers
  \<open>(True, msg)\<close> still makes the loop sleep, and no attempt follows: with
  \<open>retries = 0\<close> the command runs once and the last thing the engine does is to sleep
  for 30 seconds.
\<close>

theorem sleep_after_last_attempt:
  "trace (snd (run_command_with_retries (uniform_host (1, ''busy''))
                 ''install'' 0 always_retry None True True 30 1 start))
     = [Executed ''install'',
        LogInfo (''Output of command '' @ [dquote] @ ''install'' @ [dquote] @ '': ''
                 @ [newline] @ ''busy''),
        LogInfo ''Retrying'',
        Slept 30]"
  by (simp add: run_command_with_retries_def retry_loop.simps run_command_and_log_def
        run_get_output_def uniform_host_def static_host_def encode_utf8_def is_ascii_def
        always_retry_def start_def py_strip_def is_space_def emit_def hutil_log_info_def
        time_sleep_def split: prod.splits)

section \<open>Exceptions out of the engine\<close>

text \<open>
  C9, as amended. With \<open>retries \<ge> 0\<close>, a command whose output is ASCII and checks that
  do not raise, \<^verbatim>\<open>run_command_with_retries\<close> returns an exit code and raises nothing.
  When the output of the first attempt holds a byte above 127,
  \<^verbatim>\<open>output.encode('utf-8')\<close> in \<^verbatim>\<open>run_get_output\<close> raises
  \<^verbatim>\<open>UnicodeDecodeError\<close> and the engine lets the exception through.
\<close>

theorem run_command_with_retries_returns_exit_code:
  "((0 \<le> retries \<and> (\<forall>h. is_ascii (snd (fst (check_output F cmd h))))
       \<and> (\<forall>c out t. \<exists>r t'. retry_check c out t = (Inr r, t'))
       \<and> (\<forall>fc. final_check = Some fc \<longrightarrow> (\<forall>c out. \<exists>r. fc c out = Inr r)))
      \<longrightarrow> (\<exists>exit_code s'. run_command_with_retries F cmd retries retry_check final_check
               check_error log_cmd initial_sleep_time sleep_increase_factor s
             = (Inr exit_code, s')))
   \<and> ((0 \<le> retries \<and> \<not> is_ascii (snd (fst (check_output F cmd (host s)))))
      \<longrightarrow> fst (run_command_with_retries F cmd retries retry_check final_check
               check_error log_cmd initial_sleep_time sleep_increase_factor s)
            = Inl UnicodeDecodeError)"
proof (intro conjI impI)
  assume h: "0 \<le> retries \<and> (\<forall>h. is_ascii (snd (fst (check_output F cmd h))))
       \<and> (\<forall>c out t. \<exists>r t'. retry_check c out t = (Inr r, t'))
       \<and> (\<forall>fc. final_check = Some fc \<longrightarrow> (\<forall>c out. \<exists>r. fc c out = Inr r))"
  let ?loop = "retry_loop F cmd retries retry_check check_error log_cmd sleep_increase_factor
                  0 initial_sleep_time None s"
  obtain r s1 where l: "?loop = (Inr r, s1)"
    using h retry_loop_returns [of F cmd retry_check "nat (retries + 1 - 0)" retries 0
            check_error log_cmd sleep_increase_factor initial_sleep_time None s]
    by auto
  have "fst ?loop \<noteq> Inr None"
    using retry_loop_result [of "nat (retries + 1 - 0)" retries 0 None F cmd retry_check
            check_error log_cmd sleep_increase_factor initial_sleep_time s] h
    by simp
  with l obtain c out where r: "r = Some (c, out)" by (cases r) auto
  show "\<exists>exit_code s'. run_command_with_retries F cmd retries retry_check final_check
               check_error log_cmd initial_sleep_time sleep_increase_factor s
             = (Inr exit_code, s')"
  proof (cases final_check)
    case None
    then show ?thesis using l r by (simp add: run_command_with_retries_def)
  next
    case (Some fc)
    with h obtain v where "fc c out = Inr v" by blast
    then show ?thesis using l r Some by (simp add: run_command_with_retries_def)
  qed
next
  assume h: "0 \<le> retries \<and> \<not> is_ascii (snd (fst (check_output F cmd (host s))))"
  then have "fst (retry_loop F cmd retries retry_check check_error log_cmd sleep_increase_factor
                  0 initial_sleep_time None s) = Inl UnicodeDecodeError"
    using retry_loop_first_raises [of 0 retries F cmd s retry_check check_error log_cmd
            sleep_increase_factor initial_sleep_time None]
    by simp
  then show "fst (run_command_with_retries F cmd retries retry_check final_check
               check_error log_cmd initial_sleep_time sleep_increase_factor s)
            = Inl UnicodeDecodeError"
    by (cases "retry_loop F cmd retries retry_check check_error log_cmd sleep_increase_factor
                  0 initial_sleep_time None s")
       (simp add: run_command_with_retries_def)
qed

theorem run_command_with_retries_returns_exit_code_witness:
  "(\<exists>exit_code s'. run_command_with_retries (static_host (\<lambda>c. (1, ''busy'')) [] [] (\<lambda>p. None))
        ''install'' 2 retry_onboarding (Some final_check_if_dpkg_locked) True True 30 1 start
      = (Inr exit_code, s'))
   \<and> fst (run_command_with_retries (static_host (\<lambda>c. (1, [CHR 0xE9])) [] [] (\<lambda>p. None))
        ''install'' 2 retry_onboarding (Some final_check_if_dpkg_locked) True True 30 1 start)
      = Inl UnicodeDecodeError"
proof -
  have a: "\<forall>h. is_ascii (snd (fst (check_output
              (static_host (\<lambda>c. (1, ''busy'')) [] [] (\<lambda>p. None)) ''install'' h)))"
    by (simp add: static_host_def is_ascii_def)
  have b: "\<forall>c out (t::unit state). \<exists>r t'. retry_onboarding c out t = (Inr r, t')"
    by (auto simp: retry_onboarding_def)
  have c: "\<forall>fc. Some final_check_if_dpkg_locked = Some fc
              \<longrightarrow> (\<forall>c out. \<exists>r. fc c out = Inr r)"
    by (simp add: final_check_if_dpkg_locked_def)
  have d: "\<not> is_ascii (snd (fst (check_output
              (static_host (\<lambda>c. (1, [CHR 0xE9])) [] [] (\<lambda>p. None)) ''install'' (host start))))"
    by (simp add: static_host_def is_ascii_def)
  show ?thesis
    using a b c d
      run_command_with_retries_returns_exit_code
        [of 2 "static_host (\<lambda>c. (1, ''busy'')) [] [] (\<lambda>p. None)" "''install''"
            retry_onboarding "Some final_check_if_dpkg_locked" True True 30 1 start]
      run_command_with_retries_returns_exit_code
        [of 2 "static_host (\<lambda>c. (1, [CHR 0xE9])) [] [] (\<lambda>p. None)" "''install''"
            retry_onboarding "Some final_check_if_dpkg_locked" True True 30 1 start]
    by simp
qed

text \<open>
  C9 as the specification states it fails for an output that is not ASCII: the command fails with
  exit code 1 and one byte \<open>0xFF\<close> of output, and the engine raises instead of
  returning an exit code.
\<close>

theorem run_command_with_retries_raises_on_non_ascii_output:
  "run_command_with_retries (uniform_host (1, [CHR 0xFF]))
        ''install'' 0 never_retry None True True 30 1 start
     = (Inl UnicodeDecodeError, \<lparr>host = (), trace = [Executed ''install'']\<rparr>)"
  by (simp add: run_command_with_retries_def retry_loop.simps run_command_and_log_def
        run_get_output_def uniform_host_def static_host_def encode_utf8_def is_ascii_def
        start_def emit_def)

section \<open>The workspace key\<close>

lemma log_and_exit_executions:
  "executions cmd (trace (snd (log_and_exit operation exit_code message s)))
     = executions cmd (trace s)"
  by (simp add: log_and_exit_def hutil_log_info_def hutil_log_error_def waagent_log_info_def
        waagent_log_error_def executions_emit)

lemma log_and_exit_raises: "\<exists>e. fst (log_and_exit operation exit_code message s) = Inl e"
  by (simp add: log_and_exit_def)





section \<open>Strings and patterns\<close>

lemma py_in_length: "py_in x y \<Longrightarrow> length x \<le> length y"
proof (induction y)
  case Nil
  then show ?case by simp
next
  case (Cons c cs)
  then show ?case
    by (auto simp: starts_with_def dest: arg_cong [where f = length])
qed

lemma py_split_nonempty: "py_split sep s \<noteq> []"
  by (induction s) (auto split: list.splits)

lemma py_split_length: "l \<in> set (py_split sep s) \<Longrightarrow> length l \<le> length s"
proof (induction s arbitrary: l)
  case Nil
  then show ?case by simp
next
  case (Cons c cs)
  show ?case
  proof (cases "c = sep")
    case True
    with Cons show ?thesis by (auto simp: le_Suc_eq)
  next
    case False
    obtain p ps where ps: "py_split sep cs = p # ps"
      using py_split_nonempty [of sep cs] by (cases "py_split sep cs") auto
    with False Cons.prems have "l = c # p \<or> l \<in> set ps" by simp
    moreover have "length p \<le> length cs" using Cons.IH [of p] ps by simp
    moreover have "l \<in> set ps \<Longrightarrow> length l \<le> length cs" using Cons.IH [of l] ps by simp
    ultimately show ?thesis by auto
  qed
qed

lemma hex_run_length: "hex_run n s = Some r \<Longrightarrow> length s = n + length r"
  by (auto simp: hex_run_def split: if_splits)

lemma lit_length: "lit p s = Some r \<Longrightarrow> length s = length p + length r"
  by (auto simp: lit_def starts_with_def split: if_splits dest: arg_cong [where f = length])

lemma guid_prefix_length: "guid_prefix s = Some r \<Longrightarrow> length s = 36 + length r"
  by (auto simp: guid_prefix_def Option.bind_eq_Some_conv
           dest!: hex_run_length lit_length)

lemma guid_only_match_length: "guid_only_match w \<Longrightarrow> 36 \<le> length w"
  by (auto simp: guid_only_match_def split: option.splits dest: guid_prefix_length)

lemma dropWhile_fixed: "xs = [] \<or> \<not> P (hd xs) \<Longrightarrow> dropWhile P xs = xs"
  by (cases xs) auto

lemma dropWhile_hd: "dropWhile P xs = [] \<or> \<not> P (hd (dropWhile P xs))"
  using hd_dropWhile [of P xs] by blast

lemma py_strip_idem: "py_strip (py_strip s) = py_strip s"
proof -
  let ?t = "dropWhile is_space s"
  let ?r = "dropWhile is_space (rev ?t)"
  have r: "?r = [] \<or> \<not> is_space (hd ?r)" by (rule dropWhile_hd)
  have t: "?t = [] \<or> \<not> is_space (hd ?t)" by (rule dropWhile_hd)
  have front: "rev ?r = [] \<or> \<not> is_space (hd (rev ?r))"
  proof (cases "?r = []")
    case True
    then show ?thesis by simp
  next
    case False
    have tn: "?t \<noteq> []"
    proof
      assume e: "?t = []"
      have "?r = []" by (simp only: e rev.simps dropWhile.simps)
      with False show False by simp
    qed
    obtain zs where zs: "rev ?t = zs @ ?r"
      using takeWhile_dropWhile_id [of is_space "rev ?t"] by metis
    then have "?t = rev ?r @ rev zs" by (metis rev_append rev_rev_ident)
    then have "hd ?t = hd (rev ?r)" using False by (metis hd_append2 rev_is_Nil_conv)
    then show ?thesis using t tn by metis
  qed
  have a: "dropWhile is_space (rev ?r) = rev ?r"
    using front by (rule dropWhile_fixed [of "rev ?r" is_space])
  have b: "dropWhile is_space ?r = ?r"
    using r by (rule dropWhile_fixed [of ?r is_space])
  show ?thesis
    unfolding py_strip_def by (simp only: a b rev_rev_ident)
qed

lemma run_get_output_stripped:
  "run_get_output F cmd ce lc s = (Inr (c, output), s1) \<Longrightarrow> py_strip output = output"
  by (auto simp: run_get_output_def py_strip_idem split: prod.splits sum.splits)

lemma no_workspace_excludes_guid:
  assumes "run_get_output F cmd ce lc s = (Inr (c, output), s1)"
      and "guid_only_match w"
      and "line \<in> set (py_split newline output)"
      and "py_in w line"
  shows "py_lower (py_strip output) \<noteq> ''no workspace''"
proof
  assume "py_lower (py_strip output) = ''no workspace''"
  then have "py_lower output = ''no workspace''"
    using run_get_output_stripped [OF assms(1)] by simp
  then have "length (py_lower output) = 12" by simp
  then have "length output = 12" by (simp add: py_lower_def)
  moreover have "length line \<le> length output" using assms(3) by (rule py_split_length)
  moreover have "length w \<le> length line" using assms(4) by (rule py_in_length)
  moreover have "36 \<le> length w" using assms(2) by (rule guid_only_match_length)
  ultimately show False by simp
qed

section \<open>Scanning the configured workspaces\<close>

lemma scan_lines_eq:
  "scan_lines w ls other =
     (if \<exists>l \<in> set ls. py_in w l then AlreadyConfigured else Scanned (other \<or> ls \<noteq> []))"
  by (induction ls arbitrary: other) auto

lemma scan_sub_dirs_eq:
  "scan_sub_dirs w subs other =
     (if \<exists>sub \<in> set subs. basename sub = w then AlreadyConfigured
      else Scanned (other \<or> (\<exists>sub \<in> set subs. guid_only_match (basename sub)
                                                \<or> basename sub = ''scom'')))"
  by (induction subs arbitrary: other) (auto simp: Let_def)

lemma scan_walk_eq:
  "scan_walk w tree other =
     (if \<exists>entry \<in> set tree. \<exists>sub \<in> set (fst (snd entry)). basename sub = w
      then AlreadyConfigured
      else Scanned (other \<or> (\<exists>entry \<in> set tree. \<exists>sub \<in> set (fst (snd entry)).
                               guid_only_match (basename sub) \<or> basename sub = ''scom'')))"
proof (induction tree arbitrary: other)
  case Nil
  then show ?case by simp
next
  case (Cons entry tree)
  obtain d subs fs where e: "entry = (d, subs, fs)" by (cases entry)
  show ?case
    using Cons.IH by (auto simp: e scan_sub_dirs_eq)
qed

section \<open>Another connection\<close>




section \<open>What the probes return and raise\<close>

lemma run_get_output_ascii:
  "check_output F cmd (host s) = ((c, raw), h) \<Longrightarrow> is_ascii raw \<Longrightarrow>
   run_get_output F cmd ce lc s = (Inr (c, py_strip raw), emit (Executed cmd) (s\<lparr>host := h\<rparr>))"
  by (simp add: run_get_output_def encode_utf8_def)








section \<open>The SCOM verdict\<close>










section \<open>The port probes\<close>

lemma detect_scom_using_omsadmin_verdict:
  "check_output F (OMSAdminPath @ '' -o'') (host s) = ((exit_code, raw), h) \<Longrightarrow> is_ascii raw \<Longrightarrow>
   fst (detect_scom_using_omsadmin F s)
     = Inr (exit_code = 0 \<and> \<not> py_in ''illegal option'' (py_lower (py_strip raw))
            \<and> \<not> py_in ''unknown option'' (py_lower (py_strip raw)))"
  by (simp add: detect_scom_using_omsadmin_def Let_def run_get_output_ascii del: append.simps)

lemma detect_scom_using_omiconfigeditor_verdict:
  "check_output F (OMIConfigEditorPath @ '' httpsport -q '' @ SCOMPort @ '' < ''
                   @ OMIServerConfPath) (host s) = ((exit_code, raw), h) \<Longrightarrow> is_ascii raw \<Longrightarrow>
   fst (detect_scom_using_omiconfigeditor F s)
     = Inr (exit_code = 0 \<and> \<not> py_in ''illegal option'' (py_lower (py_strip raw))
            \<and> \<not> py_in ''unknown option'' (py_lower (py_strip raw)))"
  by (simp add: detect_scom_using_omiconfigeditor_def Let_def run_get_output_ascii
           del: append.simps)

lemma httpsport_example: "httpsport_search ''httpsport = 1270,8080'' = Some '' 1270,8080''"
  by code_simp

lemma ports_example:
  "SCOMPort \<in> set (py_split CHR '' '' (py_replace CHR '','' CHR '' '' '' 1270,8080''))"
  by code_simp

text \<open>
  C3 as the specification states it fails: there is no onboarding script, the config editor and the
  server configuration file exist, the file holds \<^verbatim>\<open>httpsport = 1270,8080\<close>, and the
  config editor answers that it does not know the option. The probe says that the port
  is not open, although the file alone would say that it is.
\<close>

theorem scom_port_probe_stops_at_config_editor:
  "fst (scom_port_probe
          (conf_host (1, ''omiconfigeditor: unrecognized option -q'')
             [OMIConfigEditorPath, OMIServerConfPath]) start)
     = Inr (Some False)
   \<and> fst (scom_port_probe
          (conf_host (1, ''omiconfigeditor: illegal option -- q'')
             [OMIConfigEditorPath, OMIServerConfPath]) start)
     = Inr (Some False)
   \<and> fst (detect_scom_using_omiserver_conf
          (conf_host (1, ''omiconfigeditor: unrecognized option -q'')
             [OMIConfigEditorPath, OMIServerConfPath]) start)
     = Inr True"
  by code_simp

section \<open>The lock pattern\<close>

lemma starts_with_iff: "starts_with s p \<longleftrightarrow> (\<exists>post. s = p @ post)"
proof
  assume "starts_with s p"
  then have "s = p @ drop (length p) s"
    by (metis append_take_drop_id starts_with_def)
  then show "\<exists>post. s = p @ post" ..
next
  assume "\<exists>post. s = p @ post"
  then show "starts_with s p" by (auto simp: starts_with_def)
qed

lemma py_in_iff: "py_in x y \<longleftrightarrow> (\<exists>pre post. y = pre @ x @ post)"
proof (induction y)
  case Nil
  then show ?case by auto
next
  case (Cons c cs)
  show ?case
  proof
    assume "py_in x (c # cs)"
    then consider "starts_with (c # cs) x" | "py_in x cs" by auto
    then show "\<exists>pre post. c # cs = pre @ x @ post"
    proof cases
      case 1
      then obtain post where "c # cs = x @ post" by (auto simp: starts_with_iff)
      then have "c # cs = [] @ x @ post" by simp
      then show ?thesis by blast
    next
      case 2
      then obtain pre post where "cs = pre @ x @ post" using Cons.IH by blast
      then have "c # cs = (c # pre) @ x @ post" by simp
      then show ?thesis by blast
    qed
  next
    assume "\<exists>pre post. c # cs = pre @ x @ post"
    then obtain pre post where e: "c # cs = pre @ x @ post" by blast
    show "py_in x (c # cs)"
    proof (cases pre)
      case Nil
      then have "starts_with (c # cs) x" using e by (auto simp: starts_with_iff)
      then show ?thesis by simp
    next
      case (Cons a pre')
      then have "cs = pre' @ x @ post" using e by simp
      then have "py_in x cs" using Cons.IH by blast
      then show ?thesis by simp
    qed
  qed
qed

lemma after_first_Some: "after_first p s = Some r \<Longrightarrow> \<exists>pre. s = pre @ p @ r"
proof (induction s)
  case Nil
  then show ?case by (auto split: if_splits)
next
  case (Cons c cs)
  show ?case
  proof (cases "starts_with (c # cs) p")
    case True
    then have "r = drop (length p) (c # cs)" using Cons.prems by simp
    moreover have "c # cs = p @ drop (length p) (c # cs)"
      using True by (metis append_take_drop_id starts_with_def)
    ultimately have "c # cs = [] @ p @ r" by simp
    then show ?thesis by blast
  next
    case False
    then have "after_first p cs = Some r" using Cons.prems by simp
    then obtain pre where "cs = pre @ p @ r" using Cons.IH by blast
    then have "c # cs = (c # pre) @ p @ r" by simp
    then show ?thesis by blast
  qed
qed

lemma after_first_occurrence:
  "s = pre @ p @ rest \<Longrightarrow> \<exists>u. after_first p s = Some (u @ rest)"
proof (induction s arbitrary: pre)
  case Nil
  then show ?case by simp
next
  case (Cons c cs)
  show ?case
  proof (cases "starts_with (c # cs) p")
    case True
    have "drop (length p) (c # cs) = drop (length p) (pre @ p) @ rest"
      using Cons.prems by (metis append.assoc drop_append length_append le_add2
                             diff_is_0_eq drop0)
    then show ?thesis using True by auto
  next
    case False
    then have "pre \<noteq> []" using Cons.prems by (auto simp: starts_with_iff)
    then obtain a pre' where p: "pre = a # pre'" by (cases pre) auto
    then have "cs = pre' @ p @ rest" using Cons.prems by simp
    then obtain u where "after_first p cs = Some (u @ rest)" using Cons.IH by blast
    then show ?thesis using False by simp
  qed
qed

lemma dpkg_lock_line_iff:
  "dpkg_lock_line l \<longleftrightarrow>
     (\<exists>pre mid post. l = pre @ ''dpkg'' @ mid @ ''lock'' @ post \<and> mid \<noteq> [])"
proof
  assume "dpkg_lock_line l"
  then obtain r where r: "after_first ''dpkg'' l = Some r" and i: "py_in ''lock'' (tl r)"
    by (auto simp: dpkg_lock_line_def split: option.splits)
  obtain pre where l: "l = pre @ ''dpkg'' @ r" using after_first_Some [OF r] by blast
  obtain a b where t: "tl r = a @ ''lock'' @ b" using i py_in_iff by blast
  then have "r \<noteq> []" by auto
  then have "r = (hd r # a) @ ''lock'' @ b" using t by (cases r) auto
  then have "l = pre @ ''dpkg'' @ (hd r # a) @ ''lock'' @ b" using l by simp
  then show "\<exists>pre mid post. l = pre @ ''dpkg'' @ mid @ ''lock'' @ post \<and> mid \<noteq> []"
    by blast
next
  assume "\<exists>pre mid post. l = pre @ ''dpkg'' @ mid @ ''lock'' @ post \<and> mid \<noteq> []"
  then obtain pre mid post where l: "l = pre @ ''dpkg'' @ (mid @ ''lock'' @ post)"
      and m: "mid \<noteq> []" by auto
  obtain u where r: "after_first ''dpkg'' l = Some (u @ mid @ ''lock'' @ post)"
    using after_first_occurrence [OF l] by blast
  have "u @ mid \<noteq> []" using m by simp
  then have "tl ((u @ mid) @ ''lock'' @ post) = tl (u @ mid) @ ''lock'' @ post"
    by (rule tl_append2)
  then have "tl (u @ mid @ ''lock'' @ post) = tl (u @ mid) @ ''lock'' @ post"
    by (simp only: append_assoc)
  then have "py_in ''lock'' (tl (u @ mid @ ''lock'' @ post))"
    using py_in_iff by metis
  then show "dpkg_lock_line l"
    using r by (simp add: dpkg_lock_line_def)
qed

section \<open>Further facts about sleeping\<close>

lemma no_retry_on_first_attempt:
  assumes "is_ascii (snd (fst (check_output F cmd (host s))))"
      and "\<forall>c out t. \<exists>msg. retry_check c out t = (Inr (False, msg), t)"
  shows "executions cmd (trace (snd (run_command_with_retries F cmd 0 retry_check final_check
            check_error log_cmd initial_sleep_time sleep_increase_factor s)))
           = executions cmd (trace s) + 1
         \<and> sleeps (trace (snd (run_command_with_retries F cmd 0 retry_check final_check
            check_error log_cmd initial_sleep_time sleep_increase_factor s)))
           = sleeps (trace s)"
proof -
  obtain c out s1 where run: "run_command_and_log F cmd check_error log_cmd s = (Inr (c, out), s1)"
    using run_command_and_log_ascii [OF assms(1)] by blast
  obtain msg where pol: "retry_check c out s1 = (Inr (False, msg), s1)"
    using assms(2) by blast
  have l: "retry_loop F cmd 0 retry_check check_error log_cmd sleep_increase_factor 0
             initial_sleep_time None s = (Inr (Some (c, out)), s1)"
    using run pol by (subst retry_loop.simps) simp
  have e: "executions cmd (trace s1) = executions cmd (trace s) + 1"
    using run_command_and_log_executions [of cmd F check_error log_cmd s] run by simp
  have sl: "sleeps (trace s1) = sleeps (trace s)"
    using run_command_and_log_sleeps [of F cmd check_error log_cmd s] run by simp
  show ?thesis
    using l e sl by (simp add: run_command_with_retries_trace)
qed

section \<open>The final check and the last attempt\<close>








section \<open>A workspace that is already configured\<close>

lemma run_get_output_not_ascii:
  "check_output F cmd (host s) = ((c, raw), h) \<Longrightarrow> \<not> is_ascii raw \<Longrightarrow>
   fst (run_get_output F cmd ce lc s) = Inl UnicodeDecodeError"
  by (simp add: run_get_output_def encode_utf8_def)

text \<open>
  C4, as amended. When the onboarding script exists, the output of its \<^verbatim>\<open>-l\<close> command
  is ASCII and a line of it (after stripping) contains the target workspace ID (a valid
  one, which \<^verbatim>\<open>install\<close> makes sure of), \<^verbatim>\<open>detect_multiple_connections\<close> logs that the
  workspace is already configured and returns without an exception, whatever else is
  listed. When the script does not exist and a directory under the configuration root
  is named like the target workspace ID, it does the same. When the output of the
  \<^verbatim>\<open>-l\<close> command holds a byte above 127, \<^verbatim>\<open>run_get_output\<close> raises
  \<^verbatim>\<open>UnicodeDecodeError\<close> and \<^verbatim>\<open>detect_multiple_connections\<close> lets it through.
\<close>

theorem detect_multiple_connections_target_listed:
  "((path_exists F OMSAdminPath (host s)
      \<and> check_output F WorkspaceCheckCommand (host s) = ((exit_code, raw), h)
      \<and> is_ascii raw
      \<and> check_workspace_id workspace_id = Inr ()
      \<and> (\<exists>line \<in> set (py_split newline (py_strip raw)). py_in workspace_id line))
     \<longrightarrow> detect_multiple_connections F workspace_id s
           = (Inr (), hutil_log_info already_configured_msg
                        (emit (Executed WorkspaceCheckCommand) (s\<lparr>host := h\<rparr>))))
   \<and> ((\<not> path_exists F OMSAdminPath (host s)
      \<and> (\<exists>entry \<in> set (os_walk F EtcOMSAgentPath (host s)).
            \<exists>sub_dir \<in> set (fst (snd entry)). basename sub_dir = workspace_id))
     \<longrightarrow> detect_multiple_connections F workspace_id s
           = (Inr (), hutil_log_info already_configured_msg s))
   \<and> ((path_exists F OMSAdminPath (host s)
      \<and> check_output F WorkspaceCheckCommand (host s) = ((exit_code, raw), h)
      \<and> \<not> is_ascii raw)
     \<longrightarrow> fst (detect_multiple_connections F workspace_id s) = Inl UnicodeDecodeError)"
proof (intro conjI impI)
  assume h: "path_exists F OMSAdminPath (host s)
      \<and> check_output F WorkspaceCheckCommand (host s) = ((exit_code, raw), h)
      \<and> is_ascii raw
      \<and> check_workspace_id workspace_id = Inr ()
      \<and> (\<exists>line \<in> set (py_split newline (py_strip raw)). py_in workspace_id line)"
  let ?s1 = "emit (Executed WorkspaceCheckCommand) (s\<lparr>host := h\<rparr>)"
  from h have co: "check_output F WorkspaceCheckCommand (host s) = ((exit_code, raw), h)"
    and a: "is_ascii raw" by simp_all
  have r: "run_get_output F WorkspaceCheckCommand False True s
             = (Inr (exit_code, py_strip raw), ?s1)"
    using co a by (rule run_get_output_ascii)
  from h have g: "guid_only_match workspace_id"
    by (auto simp: check_workspace_id_def split: if_splits)
  from h obtain line where l: "line \<in> set (py_split newline (py_strip raw))"
      "py_in workspace_id line"
    by blast
  have nw: "py_lower (py_strip (py_strip raw)) \<noteq> ''no workspace''"
    using no_workspace_excludes_guid [OF r g l] .
  have sc: "scan_lines workspace_id (py_split newline (py_strip raw)) False = AlreadyConfigured"
    using l by (auto simp: scan_lines_eq)
  show "detect_multiple_connections F workspace_id s
           = (Inr (), hutil_log_info already_configured_msg ?s1)"
    using h r nw sc by (simp add: detect_multiple_connections_def after_scan_def)
next
  assume h: "\<not> path_exists F OMSAdminPath (host s)
      \<and> (\<exists>entry \<in> set (os_walk F EtcOMSAgentPath (host s)).
            \<exists>sub_dir \<in> set (fst (snd entry)). basename sub_dir = workspace_id)"
  then have "scan_walk workspace_id (os_walk F EtcOMSAgentPath (host s)) False = AlreadyConfigured"
    by (simp add: scan_walk_eq)
  then show "detect_multiple_connections F workspace_id s
           = (Inr (), hutil_log_info already_configured_msg s)"
    using h by (simp add: detect_multiple_connections_def after_scan_def)
next
  assume h: "path_exists F OMSAdminPath (host s)
      \<and> check_output F WorkspaceCheckCommand (host s) = ((exit_code, raw), h)
      \<and> \<not> is_ascii raw"
  then have "fst (run_get_output F WorkspaceCheckCommand False True s) = Inl UnicodeDecodeError"
    using run_get_output_not_ascii [of F WorkspaceCheckCommand s exit_code raw h False True]
    by blast
  then show "fst (detect_multiple_connections F workspace_id s) = Inl UnicodeDecodeError"
    using h
    by (cases "run_get_output F WorkspaceCheckCommand False True s")
       (simp add: detect_multiple_connections_def)
qed

theorem detect_multiple_connections_target_listed_witness:
  "detect_multiple_connections host_same_workspace target_workspace start
     = (Inr (), \<lparr>host = (), trace = [Executed WorkspaceCheckCommand,
                                      LogInfo already_configured_msg]\<rparr>)
   \<and> detect_multiple_connections host_same_workspace_dirs target_workspace start
     = (Inr (), \<lparr>host = (), trace = [LogInfo already_configured_msg]\<rparr>)
   \<and> fst (detect_multiple_connections host_same_workspace_latin1 target_workspace start)
     = Inl UnicodeDecodeError"
proof -
  let ?raw = "''Workspace(SCOM Workspace): scom'' @ [newline]
                @ ''Primary Workspace: 94a1f46d-2ced-4739-9b6a-1f06156ca4ac''
                @ ''    Status: Onboarded(OMSAgent Running)'' @ [newline]"
  let ?raw2 = "''Primary Workspace: 94a1f46d-2ced-4739-9b6a-1f06156ca4ac''
                 @ ''    Status: Onboard'' @ [CHR 0xE9] @ [newline]"
  have e: "path_exists host_same_workspace OMSAdminPath (host start)"
    by code_simp
  have c: "check_output host_same_workspace WorkspaceCheckCommand (host start) = ((0, ?raw), ())"
    by code_simp
  have asc: "is_ascii ?raw"
    by code_simp
  have g: "check_workspace_id target_workspace = Inr ()"
    by code_simp
  have "list_ex (py_in target_workspace) (py_split newline (py_strip ?raw))"
    by code_simp
  then have l: "\<exists>line \<in> set (py_split newline (py_strip ?raw)). py_in target_workspace line"
    by (simp only: list_ex_iff)
  have n: "\<not> path_exists host_same_workspace_dirs OMSAdminPath (host start)"
    by code_simp
  have "list_ex (\<lambda>entry. list_ex (\<lambda>sub_dir. basename sub_dir = target_workspace)
                           (fst (snd entry)))
          (os_walk host_same_workspace_dirs EtcOMSAgentPath (host start))"
    by code_simp
  then have d: "\<exists>entry \<in> set (os_walk host_same_workspace_dirs EtcOMSAgentPath (host start)).
                  \<exists>sub_dir \<in> set (fst (snd entry)). basename sub_dir = target_workspace"
    by (simp only: list_ex_iff)
  have e2: "path_exists host_same_workspace_latin1 OMSAdminPath (host start)"
    by code_simp
  have c2: "check_output host_same_workspace_latin1 WorkspaceCheckCommand (host start)
              = ((0, ?raw2), ())"
    by code_simp
  have na: "\<not> is_ascii ?raw2"
    by code_simp
  have a: "detect_multiple_connections host_same_workspace target_workspace start
             = (Inr (), hutil_log_info already_configured_msg
                          (emit (Executed WorkspaceCheckCommand) (start\<lparr>host := ()\<rparr>)))"
    using detect_multiple_connections_target_listed
            [of host_same_workspace start 0 ?raw "()" target_workspace]
          e c asc g l
    by blast
  have b: "detect_multiple_connections host_same_workspace_dirs target_workspace start
             = (Inr (), hutil_log_info already_configured_msg start)"
    using detect_multiple_connections_target_listed
            [of host_same_workspace_dirs start _ _ _ target_workspace] n d
    by blast
  have x: "fst (detect_multiple_connections host_same_workspace_latin1 target_workspace start)
             = Inl UnicodeDecodeError"
    using detect_multiple_connections_target_listed
            [of host_same_workspace_latin1 start 0 ?raw2 "()" target_workspace] e2 c2 na
    by blast
  show ?thesis
    unfolding a b x by (simp add: hutil_log_info_def emit_def start_def)
qed

text \<open>
  C4 as the specification states it fails when the enumeration cannot be encoded: the
  onboarding script lists the target workspace, its output holds one byte above 127,
  and \<^verbatim>\<open>detect_multiple_connections\<close> raises \<^verbatim>\<open>UnicodeDecodeError\<close>.
\<close>

theorem detect_multiple_connections_raises_on_latin1_output:
  "list_ex (py_in target_workspace)
     (py_split newline (snd (fst (check_output host_same_workspace_latin1 WorkspaceCheckCommand
                                     (host start)))))
   \<and> detect_multiple_connections host_same_workspace_latin1 target_workspace start
     = (Inl UnicodeDecodeError, \<lparr>host = (), trace = [Executed WorkspaceCheckCommand]\<rparr>)"
  by code_simp

section \<open>The first directive of the configuration file\<close>

lemma after_newlines_append:
  "after_newlines (pre @ rest) = map (\<lambda>p. p @ rest) (after_newlines pre) @ after_newlines rest"
  by (induction pre) auto

lemma after_newlines_suffix: "p \<in> set (after_newlines pre) \<Longrightarrow> \<exists>a. pre = a @ p"
proof (induction pre)
  case Nil
  then show ?case by simp
next
  case (Cons c cs)
  then consider "c = newline" "p = cs" | "p \<in> set (after_newlines cs)"
    by (auto split: if_splits)
  then show ?case
  proof cases
    case 1
    then have "c # cs = [c] @ p" by simp
    then show ?thesis by blast
  next
    case 2
    then obtain a where "cs = a @ p" using Cons.IH by blast
    then have "c # cs = (c # a) @ p" by simp
    then show ?thesis by blast
  qed
qed

lemma after_newlines_last:
  "pre \<noteq> [] \<Longrightarrow> last pre = newline \<Longrightarrow> [] \<in> set (after_newlines pre)"
  by (induction pre) (auto split: if_splits)

lemma first_some_append:
  "\<forall>x \<in> set xs. f x = None \<or> f x = Some g \<Longrightarrow> \<exists>x \<in> set xs. f x = Some g \<Longrightarrow>
   first_some f (xs @ ys) = Some g"
proof (induction xs)
  case Nil
  then show ?case by simp
next
  case (Cons x xs)
  show ?case
  proof (cases "f x")
    case (Some y)
    then have "y = g" using Cons.prems(1) by auto
    then show ?thesis using Some by simp
  next
    case None
    then have "\<exists>x \<in> set xs. f x = Some g" using Cons.prems(2) by auto
    moreover have "\<forall>x \<in> set xs. f x = None \<or> f x = Some g" using Cons.prems(1) by simp
    ultimately have "first_some f (xs @ ys) = Some g" using Cons.IH by blast
    then show ?thesis using None by simp
  qed
qed

lemma no_straddle:
  assumes "q \<noteq> []" and "length q < 9"
  shows "take 9 (q @ ''httpsport'' @ r) \<noteq> ''httpsport''"
proof -
  from assms have "0 < length q" "length q < 9" by simp_all
  then consider "length q = 1" | "length q = 2" | "length q = 3" | "length q = 4"
    | "length q = 5" | "length q = 6" | "length q = 7" | "length q = 8" by arith
  then show ?thesis
  proof cases
    case 1
    then obtain a where "q = [a]" by (auto simp: length_Suc_conv)
    then show ?thesis by auto
  next
    case 2
    then obtain a b where "q = [a, b]" by (auto simp: length_Suc_conv numeral_2_eq_2)
    then show ?thesis by auto
  next
    case 3
    then obtain a b c where "q = [a, b, c]" by (auto simp: length_Suc_conv numeral_3_eq_3)
    then show ?thesis by auto
  next
    case 4
    then have "length q = Suc (Suc (Suc (Suc 0)))" by simp
    then obtain a b c d where "q = [a, b, c, d]" by (auto simp: length_Suc_conv)
    then show ?thesis by auto
  next
    case 5
    then have "length q = Suc (Suc (Suc (Suc (Suc 0))))" by simp
    then obtain a b c d e where "q = [a, b, c, d, e]" by (auto simp: length_Suc_conv)
    then show ?thesis by auto
  next
    case 6
    then have "length q = Suc (Suc (Suc (Suc (Suc (Suc 0)))))" by simp
    then obtain a b c d e f where "q = [a, b, c, d, e, f]" by (auto simp: length_Suc_conv)
    then show ?thesis by auto
  next
    case 7
    then have "length q = Suc (Suc (Suc (Suc (Suc (Suc (Suc 0))))))" by simp
    then obtain a b c d e f g where "q = [a, b, c, d, e, f, g]"
      by (auto simp: length_Suc_conv)
    then show ?thesis by auto
  next
    case 8
    then have "length q = Suc (Suc (Suc (Suc (Suc (Suc (Suc (Suc 0)))))))" by simp
    then obtain a b c d e f g h where "q = [a, b, c, d, e, f, g, h]"
      by (auto simp: length_Suc_conv)
    then show ?thesis by auto
  qed
qed

lemma lit_httpsport_none:
  assumes "pre = a @ q" and "q \<noteq> []" and "\<not> py_in ''httpsport'' pre"
  shows "lit ''httpsport'' (q @ ''httpsport'' @ r) = None"
proof (cases "length q < 9")
  case True
  have len: "length ''httpsport'' = 9" by simp
  have "take 9 (q @ ''httpsport'' @ r) \<noteq> ''httpsport''"
    using assms(2) True by (rule no_straddle)
  then show ?thesis
    by (simp only: lit_def starts_with_def len if_False)
next
  case False
  show ?thesis
  proof (rule ccontr)
    assume "lit ''httpsport'' (q @ ''httpsport'' @ r) \<noteq> None"
    moreover have len: "length ''httpsport'' = 9" by simp
    ultimately have "take 9 (q @ ''httpsport'' @ r) = ''httpsport''"
      unfolding lit_def starts_with_def len by (metis)
    moreover have "take 9 (q @ ''httpsport'' @ r) = take 9 q" using False by simp
    ultimately have "take 9 q = ''httpsport''" by simp
    then have "q = ''httpsport'' @ drop 9 q" by (metis append_take_drop_id)
    then have "pre = a @ ''httpsport'' @ drop 9 q" using assms(1) by simp
    then have "py_in ''httpsport'' pre" using py_in_iff by blast
    then show False using assms(3) by simp
  qed
qed

lemma httpsport_at_line:
  assumes "post = [] \<or> hd post = newline"
  shows "httpsport_at (''httpsport = 1270,8080'' @ post) = Some '' 1270,8080''"
proof -
  have "takeWhile (\<lambda>c. c \<noteq> newline) ('' 1270,8080'' @ post) = '' 1270,8080''"
    using assms by (cases post) (auto simp: newline_def)
  then show ?thesis
    by (simp add: httpsport_at_def lit_def starts_with_def is_space_def)
qed

lemma httpsport_at_before:
  assumes "pre = a @ p" and "\<not> py_in ''httpsport'' pre" and "post = [] \<or> hd post = newline"
  shows "httpsport_at (p @ ''httpsport = 1270,8080'' @ post) = None
         \<or> httpsport_at (p @ ''httpsport = 1270,8080'' @ post) = Some '' 1270,8080''"
proof (cases "\<forall>c \<in> set p. is_space c")
  case True
  have "\<not> is_space CHR ''h''" by (simp add: is_space_def)
  then have "dropWhile is_space (p @ ''httpsport = 1270,8080'' @ post)
               = dropWhile is_space (''httpsport = 1270,8080'' @ post)"
    using True by (simp add: dropWhile_append)
  then have "httpsport_at (p @ ''httpsport = 1270,8080'' @ post)
               = httpsport_at (''httpsport = 1270,8080'' @ post)"
    by (simp only: httpsport_at_def)
  then show ?thesis using httpsport_at_line [OF assms(3)] by simp
next
  case False
  let ?q = "dropWhile is_space p"
  have qn: "?q \<noteq> []" using False by auto
  obtain x where x: "x \<in> set p" "\<not> is_space x" using False by blast
  have d: "dropWhile is_space (p @ ''httpsport = 1270,8080'' @ post)
             = ?q @ ''httpsport = 1270,8080'' @ post"
    using x by (rule dropWhile_append1)
  have "p = takeWhile is_space p @ ?q" by simp
  then have "pre = (a @ takeWhile is_space p) @ ?q" using assms(1) by (metis append.assoc)
  then have "lit ''httpsport'' (?q @ ''httpsport'' @ ('' = 1270,8080'' @ post)) = None"
    using lit_httpsport_none [OF _ qn assms(2)] by blast
  then have "lit ''httpsport'' (?q @ ''httpsport = 1270,8080'' @ post) = None"
    by simp
  then have "httpsport_at (p @ ''httpsport = 1270,8080'' @ post) = None"
    unfolding httpsport_at_def by (simp only: d option.case)
  then show ?thesis by simp
qed

lemma httpsport_search_first:
  assumes "pre = [] \<or> last pre = newline" and "\<not> py_in ''httpsport'' pre"
      and "post = [] \<or> hd post = newline"
  shows "httpsport_search (pre @ ''httpsport = 1270,8080'' @ post) = Some '' 1270,8080''"
proof -
  let ?rest = "''httpsport = 1270,8080'' @ post"
  let ?P = "pre # after_newlines pre"
  have ls: "line_starts (pre @ ?rest) = map (\<lambda>p. p @ ?rest) ?P @ after_newlines ?rest"
    by (simp add: line_starts_def after_newlines_append)
  have suf: "\<forall>p \<in> set ?P. \<exists>a. pre = a @ p"
    using after_newlines_suffix by fastforce
  have all: "\<forall>x \<in> set (map (\<lambda>p. p @ ?rest) ?P).
               httpsport_at x = None \<or> httpsport_at x = Some '' 1270,8080''"
  proof
    fix x assume "x \<in> set (map (\<lambda>p. p @ ?rest) ?P)"
    then obtain p where p: "p \<in> set ?P" and x: "x = p @ ?rest" by auto
    obtain a where "pre = a @ p" using suf p by blast
    then show "httpsport_at x = None \<or> httpsport_at x = Some '' 1270,8080''"
      unfolding x using httpsport_at_before [OF _ assms(2,3)] by blast
  qed
  have "[] \<in> set ?P"
    using assms(1) after_newlines_last [of pre] by (cases "pre = []") auto
  then have "[] @ ?rest \<in> set (map (\<lambda>p. p @ ?rest) ?P)"
    by (intro imageI [of "[]" "set ?P" "\<lambda>p. p @ ?rest", unfolded set_map [symmetric]])
  moreover have "httpsport_at ([] @ ?rest) = Some '' 1270,8080''"
    using httpsport_at_line [OF assms(3)] by simp
  ultimately have ex: "\<exists>x \<in> set (map (\<lambda>p. p @ ?rest) ?P). httpsport_at x = Some '' 1270,8080''"
    by blast
  show ?thesis
    unfolding httpsport_search_def ls
    using first_some_append [OF all ex] .
qed

section \<open>The layers of the port probe\<close>

lemma detect_scom_using_omsadmin_not_ascii:
  "check_output F (OMSAdminPath @ '' -o'') (host s) = ((exit_code, raw), h) \<Longrightarrow> \<not> is_ascii raw \<Longrightarrow>
   fst (detect_scom_using_omsadmin F s) = Inl UnicodeDecodeError"
  by (simp add: detect_scom_using_omsadmin_def Let_def run_get_output_def encode_utf8_def
           del: append.simps)

lemma detect_scom_using_omiconfigeditor_not_ascii:
  "check_output F (OMIConfigEditorPath @ '' httpsport -q '' @ SCOMPort @ '' < ''
                   @ OMIServerConfPath) (host s) = ((exit_code, raw), h) \<Longrightarrow> \<not> is_ascii raw \<Longrightarrow>
   fst (detect_scom_using_omiconfigeditor F s) = Inl UnicodeDecodeError"
  by (simp add: detect_scom_using_omiconfigeditor_def Let_def run_get_output_def encode_utf8_def
           del: append.simps)

lemma detect_scom_using_omiserver_conf_first_directive:
  assumes "read_file F OMIServerConfPath (host s) = Some (pre @ ''httpsport = 1270,8080'' @ post)"
      and "pre = [] \<or> last pre = newline" and "\<not> py_in ''httpsport'' pre"
      and "post = [] \<or> hd post = newline"
  shows "fst (detect_scom_using_omiserver_conf F s) = Inr True"
proof -
  have "httpsport_search (pre @ ''httpsport = 1270,8080'' @ post) = Some '' 1270,8080''"
    using assms(2,3,4) by (rule httpsport_search_first)
  then show ?thesis
    using assms(1) ports_example
    by (simp add: detect_scom_using_omiserver_conf_def Let_def del: py_split.simps append.simps)
qed

text \<open>
  C3, as amended. In the layered port probe the answer of a tool that exists is final.
  When the onboarding script exists, its answer decides; when it does not and the config
  editor and the server configuration file exist, the config editor's answer decides:
  the port counts as open exactly when the exit code is 0 and the output holds neither
  \<^verbatim>\<open>illegal option\<close> nor \<^verbatim>\<open>unknown option\<close>, and as not open otherwise (an output with
  a byte above 127 raises \<^verbatim>\<open>UnicodeDecodeError\<close>); the configuration file is not looked
  at. The file is parsed only when the onboarding script and the config editor are
  absent; then a file in which the line \<^verbatim>\<open>httpsport = 1270,8080\<close> is the first place
  where \<^verbatim>\<open>httpsport\<close> occurs makes port 1270 open.
\<close>

theorem scom_port_probe_answer_is_final:
  "((path_exists F OMSAdminPath (host s)
      \<and> check_output F (OMSAdminPath @ '' -o'') (host s) = ((exit_code, raw), h))
     \<longrightarrow> fst (scom_port_probe F s)
           = (if is_ascii raw
              then Inr (Some (exit_code = 0
                              \<and> \<not> py_in ''illegal option'' (py_lower (py_strip raw))
                              \<and> \<not> py_in ''unknown option'' (py_lower (py_strip raw))))
              else Inl UnicodeDecodeError))
   \<and> ((\<not> path_exists F OMSAdminPath (host s)
      \<and> path_exists F OMIConfigEditorPath (host s)
      \<and> path_exists F OMIServerConfPath (host s)
      \<and> check_output F (OMIConfigEditorPath @ '' httpsport -q '' @ SCOMPort @ '' < ''
                         @ OMIServerConfPath) (host s) = ((exit_code, raw), h))
     \<longrightarrow> fst (scom_port_probe F s)
           = (if is_ascii raw
              then Inr (Some (exit_code = 0
                              \<and> \<not> py_in ''illegal option'' (py_lower (py_strip raw))
                              \<and> \<not> py_in ''unknown option'' (py_lower (py_strip raw))))
              else Inl UnicodeDecodeError))
   \<and> ((\<not> path_exists F OMSAdminPath (host s)
      \<and> \<not> path_exists F OMIConfigEditorPath (host s)
      \<and> path_exists F OMIServerConfPath (host s)
      \<and> read_file F OMIServerConfPath (host s) = Some (pre @ ''httpsport = 1270,8080'' @ post)
      \<and> (pre = [] \<or> last pre = newline)
      \<and> \<not> py_in ''httpsport'' pre
      \<and> (post = [] \<or> hd post = newline))
     \<longrightarrow> fst (scom_port_probe F s) = Inr (Some True))"
proof (intro conjI impI)
  assume h: "path_exists F OMSAdminPath (host s)
      \<and> check_output F (OMSAdminPath @ '' -o'') (host s) = ((exit_code, raw), h)"
  then have co: "check_output F (OMSAdminPath @ '' -o'') (host s) = ((exit_code, raw), h)"
    by (elim conjE)
  have "fst (detect_scom_using_omsadmin F s)
     = (if is_ascii raw
        then Inr (exit_code = 0 \<and> \<not> py_in ''illegal option'' (py_lower (py_strip raw))
                  \<and> \<not> py_in ''unknown option'' (py_lower (py_strip raw)))
        else Inl UnicodeDecodeError)"
    using detect_scom_using_omsadmin_verdict [OF co] detect_scom_using_omsadmin_not_ascii [OF co]
    by (cases "is_ascii raw") (simp_all del: append.simps)
  then show "fst (scom_port_probe F s)
           = (if is_ascii raw
              then Inr (Some (exit_code = 0
                              \<and> \<not> py_in ''illegal option'' (py_lower (py_strip raw))
                              \<and> \<not> py_in ''unknown option'' (py_lower (py_strip raw))))
              else Inl UnicodeDecodeError)"
    using h
    by (cases "detect_scom_using_omsadmin F s"; cases "is_ascii raw")
       (simp_all add: scom_port_probe_def del: append.simps)
next
  assume h: "\<not> path_exists F OMSAdminPath (host s)
      \<and> path_exists F OMIConfigEditorPath (host s)
      \<and> path_exists F OMIServerConfPath (host s)
      \<and> check_output F (OMIConfigEditorPath @ '' httpsport -q '' @ SCOMPort @ '' < ''
                         @ OMIServerConfPath) (host s) = ((exit_code, raw), h)"
  then have co: "check_output F (OMIConfigEditorPath @ '' httpsport -q '' @ SCOMPort @ '' < ''
                         @ OMIServerConfPath) (host s) = ((exit_code, raw), h)"
    by (elim conjE)
  have "fst (detect_scom_using_omiconfigeditor F s)
     = (if is_ascii raw
        then Inr (exit_code = 0 \<and> \<not> py_in ''illegal option'' (py_lower (py_strip raw))
                  \<and> \<not> py_in ''unknown option'' (py_lower (py_strip raw)))
        else Inl UnicodeDecodeError)"
    using detect_scom_using_omiconfigeditor_verdict [OF co]
          detect_scom_using_omiconfigeditor_not_ascii [OF co]
    by (cases "is_ascii raw") (simp_all del: append.simps)
  then show "fst (scom_port_probe F s)
           = (if is_ascii raw
              then Inr (Some (exit_code = 0
                              \<and> \<not> py_in ''illegal option'' (py_lower (py_strip raw))
                              \<and> \<not> py_in ''unknown option'' (py_lower (py_strip raw))))
              else Inl UnicodeDecodeError)"
    using h
    by (cases "detect_scom_using_omiconfigeditor F s"; cases "is_ascii raw")
       (simp_all add: scom_port_probe_def del: append.simps)
next
  assume h: "\<not> path_exists F OMSAdminPath (host s)
      \<and> \<not> path_exists F OMIConfigEditorPath (host s)
      \<and> path_exists F OMIServerConfPath (host s)
      \<and> read_file F OMIServerConfPath (host s) = Some (pre @ ''httpsport = 1270,8080'' @ post)
      \<and> (pre = [] \<or> last pre = newline)
      \<and> \<not> py_in ''httpsport'' pre
      \<and> (post = [] \<or> hd post = newline)"
  then have "fst (detect_scom_using_omiserver_conf F s) = Inr True"
    using detect_scom_using_omiserver_conf_first_directive [of F s pre post] by (elim conjE) blast
  then show "fst (scom_port_probe F s) = Inr (Some True)"
    using h by (cases "detect_scom_using_omiserver_conf F s") (simp add: scom_port_probe_def)
qed

theorem scom_port_probe_answer_is_final_witness:
  "fst (scom_port_probe (scom_host (0, []) (0, []) [OMSAdminPath, OMIServerConfPath]) start)
     = Inr (Some True)
   \<and> fst (scom_port_probe
            (conf_file_host (2, ''illegal option -- q'') omiserver_example
               [OMIConfigEditorPath, OMIServerConfPath])
            start)
     = Inr (Some False)
   \<and> fst (scom_port_probe (conf_file_host (0, []) omiserver_example [OMIServerConfPath]) start)
     = Inr (Some True)"
proof -
  let ?A = "scom_host (0, []) (0, []) [OMSAdminPath, OMIServerConfPath]"
  let ?B = "conf_file_host (2, ''illegal option -- q'') omiserver_example
              [OMIConfigEditorPath, OMIServerConfPath]"
  let ?C = "conf_file_host (0, []) omiserver_example [OMIServerConfPath]"
  let ?pre = "''## omiserver configuration'' @ [newline] @ ''httpport=0'' @ [newline]"
  let ?post = "[newline] @ ''loglevel = WARNING'' @ [newline]"
  have a1: "path_exists ?A OMSAdminPath (host start)"
    by code_simp
  have a2: "check_output ?A (OMSAdminPath @ '' -o'') (host start) = ((0, []), ())"
    by code_simp
  have a3: "is_ascii [] \<and> \<not> py_in ''illegal option'' (py_lower (py_strip []))
            \<and> \<not> py_in ''unknown option'' (py_lower (py_strip []))"
    by code_simp
  have a: "fst (scom_port_probe ?A start) = Inr (Some True)"
    using scom_port_probe_answer_is_final [of ?A start 0 "[]" "()"] a1 a2 a3
    by simp
  have b1: "\<not> path_exists ?B OMSAdminPath (host start)
            \<and> path_exists ?B OMIConfigEditorPath (host start)
            \<and> path_exists ?B OMIServerConfPath (host start)"
    by code_simp
  have b2: "check_output ?B (OMIConfigEditorPath @ '' httpsport -q '' @ SCOMPort @ '' < ''
                         @ OMIServerConfPath) (host start) = ((2, ''illegal option -- q''), ())"
    by code_simp
  have b3: "is_ascii ''illegal option -- q''"
    by code_simp
  have b: "fst (scom_port_probe ?B start) = Inr (Some False)"
    using scom_port_probe_answer_is_final [of ?B start 2 "''illegal option -- q''" "()"] b1 b2 b3
    by simp
  have c1: "\<not> path_exists ?C OMSAdminPath (host start)
            \<and> \<not> path_exists ?C OMIConfigEditorPath (host start)
            \<and> path_exists ?C OMIServerConfPath (host start)"
    by code_simp
  have c2: "read_file ?C OMIServerConfPath (host start)
              = Some (?pre @ ''httpsport = 1270,8080'' @ ?post)"
    by code_simp
  have c3: "?pre = [] \<or> last ?pre = newline"
    by simp
  have c4: "\<not> py_in ''httpsport'' ?pre"
    by code_simp
  have c5: "?post = [] \<or> hd ?post = newline"
    by simp
  have c: "fst (scom_port_probe ?C start) = Inr (Some True)"
    using scom_port_probe_answer_is_final [of ?C start _ _ _ ?pre ?post] c1 c2 c3 c4 c5
    by blast
  show ?thesis
    using a b c by blast
qed

end
